theory Spec2Isabelle
  imports Main "HOL-Library.AList" "HOL-Library.List_Lexorder" "HOL-Library.Char_ord"
begin

section \<open>Data model of the chat server\<close>

text \<open>
  The repository holds several variants of one socket.io chat server. The embedding
  follows \<^verbatim>\<open>src/server.js\<close> (accounts, login) and \<^verbatim>\<open>src/unnamed/part_001\<close>
  (anonymous join with suffixing). The two private-chat handlers of \<^verbatim>\<open>part_001\<close>
  call helpers that \<^verbatim>\<open>part_001\<close> does not define, so each call throws a
  \<^verbatim>\<open>ReferenceError\<close> there; \<^verbatim>\<open>src/unnamed/part_002\<close> has the same two
  handlers next to the helpers (one line more, in a \<^verbatim>\<open>catch\<close> block), and is
  embedded as well.

  JavaScript strings are lists of code units (\<^typ>\<open>string\<close>), socket ids are strings,
  \<^verbatim>\<open>Date.now()\<close> readings are integers (milliseconds) passed to each function that
  reads the clock, one argument per reading, and \<^verbatim>\<open>Math.random()\<close> draws are
  arguments as well. A \<^verbatim>\<open>Map\<close> or a plain object is an association list in
  insertion order: \<^const>\<open>AList.update\<close> overwrites a present key in place and appends
  an absent one, as \<^verbatim>\<open>Map.set\<close> does.
\<close>

type_synonym sid = string

text \<open>
  \<^verbatim>\<open>message.reactions\<close>: reaction symbol to the array of usernames, the keys in
  insertion order. JavaScript enumerates integer-like keys first; the loop over the entries
  treats each entry on its own, so the order of enumeration does not change its result.
\<close>

type_synonym reactions = "(string \<times> string list) list"

text \<open>
  A stored broadcast message. \<open>m_timestamp\<close> is what
  \<^verbatim>\<open>new Date(msg.timestamp).getTime()\<close> yields: \<open>None\<close> stands for \<^verbatim>\<open>NaN\<close>
  (the \<^verbatim>\<open>isFinite\<close> test fails), \<open>Some t\<close> for the milliseconds of an ISO string.
\<close>

record message =
  m_id :: string
  m_username :: string
  m_message :: string
  m_replyTo :: "string option"
  m_timestamp :: "int option"
  m_reactions :: reactions
  m_avatar :: "string option"

record userData =
  u_username :: string
  u_avatar :: "string option"
  u_socketId :: sid
  u_joinTime :: int

record account =
  passwordHash :: string
  acc_avatar :: string

record limitData =
  l_count :: nat
  l_resetTime :: int

record privateMsg =
  pm_id :: string
  pm_username :: string
  pm_message :: string
  pm_timestamp :: int
  pm_chatId :: "string option"

text \<open>
  A private chat: the participants \<^verbatim>\<open>Set\<close> and the message array. The fields
  \<^verbatim>\<open>id\<close> and \<^verbatim>\<open>created\<close> of \<^verbatim>\<open>server.js\<close> are written once and never read.
\<close>

record chat =
  c_participants :: "string set"
  c_messages :: "privateMsg list"

record state =
  registeredUsers :: "(string \<times> account) list"
  connectedUsers :: "(sid \<times> userData) list"
  recentMessages :: "message list"
  typingUsers :: "(string \<times> sid) list"
  privateChats :: "(string \<times> chat) list"
  userPrivateChats :: "(string \<times> string set) list"
  messageLimits :: "(sid \<times> limitData) list"

subsection \<open>Outbound events\<close>

text \<open>
  \<^verbatim>\<open>socket.emit\<close> and \<^verbatim>\<open>targetSocket.emit\<close> address one connection,
  \<^verbatim>\<open>io.emit\<close> all of them. The wall-clock \<^verbatim>\<open>timestamp\<close> fields of notices are
  not represented; the timestamp of a message is.
\<close>

datatype target = ToSocket sid | ToAll

datatype payload =
    LoginError string
  | LoginSuccess string string
  | UserJoined string "string option"
  | UserLeft string
  | UserCount nat
  | OnlineUsers "(string \<times> string) list"
  | OnlineNames "string list"
  | UsernameAssigned string
  | UsernameChanged string string
  | RecentMessages "message list"
  | MessageDeleted "string list"
  | ChatMessage message
  | MessageReaction string string string string
  | ErrorEvent string
  | PrivateChatAccepted string string
  | PrivateChatHistory string "privateMsg list" "string option"
  | PrivateMessage privateMsg
  | PrivateMessageFrom privateMsg string string

type_synonym emit = "target \<times> payload"

definition MAX_MESSAGES :: nat where
  "MAX_MESSAGES = 200"

definition MESSAGE_TTL_MS :: int where
  "MESSAGE_TTL_MS = 24 * 60 * 60 * 1000"

definition MAX_PRIVATE_MESSAGES :: nat where
  "MAX_PRIVATE_MESSAGES = 100"

definition MESSAGE_RATE_LIMIT :: nat where
  "MESSAGE_RATE_LIMIT = 10"

definition RATE_LIMIT_WINDOW :: int where
  "RATE_LIMIT_WINDOW = 60000"

section \<open>Helpers\<close>

subsection \<open>Arrays\<close>

text \<open>\<^verbatim>\<open>xs.indexOf(x)\<close> and \<^verbatim>\<open>xs.findIndex(p)\<close>: \<open>None\<close> is \<^verbatim>\<open>-1\<close>.\<close>

fun findIndex :: "('a \<Rightarrow> bool) \<Rightarrow> 'a list \<Rightarrow> nat option" where
  "findIndex p [] = None"
| "findIndex p (x # xs) =
     (if p x then Some 0 else map_option Suc (findIndex p xs))"

definition indexOf :: "'a list \<Rightarrow> 'a \<Rightarrow> nat option" where
  "indexOf xs x = findIndex (\<lambda>y. y = x) xs"

text \<open>\<^verbatim>\<open>xs.splice(i, 1)\<close> for an index inside the array.\<close>

definition splice1 :: "'a list \<Rightarrow> nat \<Rightarrow> 'a list" where
  "splice1 xs i = take i xs @ drop (Suc i) xs"

subsection \<open>Rate limiter\<close>

text \<open>
  \<^verbatim>\<open>checkRateLimit(socketId)\<close>, identical in every variant. The clock reading is the
  first argument; the result is the boolean and the updated \<^verbatim>\<open>messageLimits\<close>.
\<close>

definition checkRateLimit ::
  "int \<Rightarrow> sid \<Rightarrow> (sid \<times> limitData) list \<Rightarrow> bool \<times> (sid \<times> limitData) list" where
  "checkRateLimit now socketId limits =
     (case map_of limits socketId of
        None \<Rightarrow>
          (True, AList.update socketId \<lparr>l_count = 1, l_resetTime = now + RATE_LIMIT_WINDOW\<rparr> limits)
      | Some userLimit \<Rightarrow>
          if now > l_resetTime userLimit then
            (True, AList.update socketId \<lparr>l_count = 1, l_resetTime = now + RATE_LIMIT_WINDOW\<rparr> limits)
          else if l_count userLimit \<ge> MESSAGE_RATE_LIMIT then (False, limits)
          else (True, AList.update socketId (userLimit\<lparr>l_count := l_count userLimit + 1\<rparr>) limits))"

text \<open>A run of calls by one connection, one clock reading per call, results in order.\<close>

fun allowCalls ::
  "int list \<Rightarrow> sid \<Rightarrow> (sid \<times> limitData) list \<Rightarrow> bool list \<times> (sid \<times> limitData) list" where
  "allowCalls [] socketId limits = ([], limits)"
| "allowCalls (now # nows) socketId limits =
     (let (ok, limits1) = checkRateLimit now socketId limits;
          (oks, limits2) = allowCalls nows socketId limits1
      in (ok # oks, limits2))"

subsection \<open>Sanitizers\<close>

text \<open>
  \<^verbatim>\<open>String.prototype.trim\<close> strips white space and line terminators from both
  ends; of the code units below 256 these are tab, line feed, vertical tab, form feed,
  carriage return, space and the no-break space.
\<close>

definition isJsSpace :: "char \<Rightarrow> bool" where
  "isJsSpace c = (c \<in> set [CHR 0x09, CHR 0x0A, CHR 0x0B, CHR 0x0C, CHR 0x0D, CHR 0x20, CHR 0xA0])"

definition trim :: "string \<Rightarrow> string" where
  "trim s = rev (dropWhile isJsSpace (rev (dropWhile isJsSpace s)))"

text \<open>
  \<^verbatim>\<open>sanitizeMessage\<close>: the empty string is falsy and yields the empty string;
  otherwise \<^verbatim>\<open>message.trim().substring(0, 500)\<close>. A missing or non-string body
  also yields the empty string, so it is passed as the empty string.
\<close>

definition sanitizeMessage :: "string \<Rightarrow> string" where
  "sanitizeMessage message = (if message = [] then [] else take 500 (trim message))"

text \<open>
  \<^verbatim>\<open>sanitizeUsername\<close>: \<open>None\<close> is \<^verbatim>\<open>null\<close>. The characters removed are
  \<^verbatim>\<open>< > " ' &\<close>.
\<close>

definition sanitizeUsername :: "string \<Rightarrow> string option" where
  "sanitizeUsername name =
     (if name = [] then None
      else let cleaned =
             take 20 (filter (\<lambda>c. c \<notin> set [CHR ''<'', CHR ''>'', CHR 0x22, CHR 0x27, CHR ''&''])
                        (trim name))
           in if cleaned = [] then None else Some cleaned)"

subsection \<open>Message history\<close>

text \<open>The test of \<^verbatim>\<open>pruneExpiredMessages\<close>: \<^verbatim>\<open>isFinite(ts) && now - ts > MESSAGE_TTL_MS\<close>.\<close>

definition expired :: "int \<Rightarrow> message \<Rightarrow> bool" where
  "expired now msg =
     (case m_timestamp msg of None \<Rightarrow> False | Some ts \<Rightarrow> now - ts > MESSAGE_TTL_MS)"

text \<open>The test of the snapshot filter: \<^verbatim>\<open>isFinite(ts) && now - ts <= MESSAGE_TTL_MS\<close>.\<close>

definition within24h :: "int \<Rightarrow> message \<Rightarrow> bool" where
  "within24h now m =
     (case m_timestamp m of None \<Rightarrow> False | Some ts \<Rightarrow> now - ts \<le> MESSAGE_TTL_MS)"

text \<open>
  One round of the deletion loop: \<^verbatim>\<open>findIndex\<close> of the first message with the id,
  then \<^verbatim>\<open>splice(idx, 1)\<close> when there is one.
\<close>

definition deleteFirstWithId :: "message list \<Rightarrow> string \<Rightarrow> message list" where
  "deleteFirstWithId ms i =
     (case findIndex (\<lambda>m. m_id m = i) ms of None \<Rightarrow> ms | Some idx \<Rightarrow> splice1 ms idx)"

text \<open>
  \<^verbatim>\<open>pruneExpiredMessages\<close>: collect the ids of the expired messages, return early
  when there is none, delete by id, then \<^verbatim>\<open>io.emit('message deleted', toDelete)\<close>.
\<close>

definition pruneExpiredMessages :: "int \<Rightarrow> message list \<Rightarrow> message list \<times> emit list" where
  "pruneExpiredMessages now ms =
     (let toDelete = map m_id (filter (expired now) ms)
      in if length toDelete = 0 then (ms, [])
         else (foldl deleteFirstWithId ms toDelete, [(ToAll, MessageDeleted toDelete)]))"

text \<open>
  \<^verbatim>\<open>addMessageToHistory\<close>. A message always carries a reactions object here, so the
  first guard of the source never fires; \<open>genId\<close> is the id generated when the given
  one is empty; \<open>now\<close> is the clock reading of the pruning.
\<close>

definition addMessageToHistory ::
  "string \<Rightarrow> int \<Rightarrow> message \<Rightarrow> message list \<Rightarrow> message list \<times> emit list" where
  "addMessageToHistory genId now messageData ms =
     (let messageData1 = (if m_id messageData = [] then messageData\<lparr>m_id := genId\<rparr>
                          else messageData);
          (pruned, out) = pruneExpiredMessages now (ms @ [messageData1])
      in (if length pruned > MAX_MESSAGES then drop (length pruned - MAX_MESSAGES) pruned
          else pruned, out))"

subsection \<open>Reactions\<close>

text \<open>
  A reactions object is created as \<^verbatim>\<open>{}\<close> and so inherits from
  \<^verbatim>\<open>Object.prototype\<close>: reading one of the names below, when it is not an own key,
  yields an inherited function or object, which is truthy and has neither
  \<^verbatim>\<open>includes\<close> nor \<^verbatim>\<open>indexOf\<close>.
\<close>

definition protoKeys :: "string list" where
  "protoKeys = [''constructor'', ''__proto__'', ''hasOwnProperty'', ''isPrototypeOf'',
     ''propertyIsEnumerable'', ''toLocaleString'', ''toString'', ''valueOf'',
     ''__defineGetter__'', ''__defineSetter__'', ''__lookupGetter__'', ''__lookupSetter__'']"

datatype property = Undefined | Inherited | OwnArray "string list"

definition getProperty :: "reactions \<Rightarrow> string \<Rightarrow> property" where
  "getProperty r k =
     (case map_of r k of
        Some users \<Rightarrow> OwnArray users
      | None \<Rightarrow> if k \<in> set protoKeys then Inherited else Undefined)"

text \<open>
  The loop of the \<^verbatim>\<open>add\<close> branch runs over the snapshot \<^verbatim>\<open>Object.entries\<close> took
  (first argument after the username) and mutates the live object (last argument): the
  user's first occurrence is spliced out of the entry's array, and the key is deleted when
  the array became empty.
\<close>

fun removeExisting :: "string \<Rightarrow> (string \<times> string list) list \<Rightarrow> reactions \<Rightarrow> reactions" where
  "removeExisting username [] r = r"
| "removeExisting username ((existingReaction, users) # entries) r =
     (case indexOf users username of
        None \<Rightarrow> removeExisting username entries r
      | Some userIndex \<Rightarrow>
          (let users1 = splice1 users userIndex
           in removeExisting username entries
                (if length users1 = 0 then AList.delete existingReaction r
                 else AList.update existingReaction users1 r)))"

text \<open>
  What a call of \<^verbatim>\<open>updateMessageReactions\<close> does: it returns a boolean, or a
  \<^verbatim>\<open>TypeError\<close> escapes it (a method call on an inherited property).
\<close>

datatype outcome = Returns bool | Throws

text \<open>The \<^verbatim>\<open>add\<close> branch on the reactions of the message found.\<close>

definition addReaction :: "string \<Rightarrow> string \<Rightarrow> reactions \<Rightarrow> outcome \<times> reactions" where
  "addReaction reaction username r =
     (let r1 = removeExisting username r r;
          r2 = (case getProperty r1 reaction of Undefined \<Rightarrow> r1 @ [(reaction, [])] | _ \<Rightarrow> r1)
      in case getProperty r2 reaction of
           OwnArray users \<Rightarrow>
             (Returns True,
              if username \<in> set users then r2 else AList.update reaction (users @ [username]) r2)
         | _ \<Rightarrow> (Throws, r2))"

text \<open>The \<^verbatim>\<open>remove\<close> branch.\<close>

definition removeReaction :: "string \<Rightarrow> string \<Rightarrow> reactions \<Rightarrow> outcome \<times> reactions" where
  "removeReaction reaction username r =
     (case getProperty r reaction of
        Undefined \<Rightarrow> (Returns True, r)
      | Inherited \<Rightarrow> (Throws, r)
      | OwnArray users \<Rightarrow>
          (case indexOf users username of
             None \<Rightarrow> (Returns True, r)
           | Some idx \<Rightarrow>
               (let users1 = splice1 users idx
                in (Returns True,
                    if length users1 = 0 then AList.delete reaction r
                    else AList.update reaction users1 r))))"

text \<open>
  \<^verbatim>\<open>updateMessageReactions(messageId, reaction, username, action)\<close> on the history:
  the first message with the id is the one mutated.
\<close>

definition updateMessageReactions ::
  "string \<Rightarrow> string \<Rightarrow> string \<Rightarrow> string \<Rightarrow> message list \<Rightarrow> outcome \<times> message list" where
  "updateMessageReactions messageId reaction username action ms =
     (case findIndex (\<lambda>msg. m_id msg = messageId) ms of
        None \<Rightarrow> (Returns False, ms)
      | Some i \<Rightarrow>
          (let message = ms ! i;
               (res, r) =
                 (if action = ''add'' then addReaction reaction username (m_reactions message)
                  else if action = ''remove'' then
                    removeReaction reaction username (m_reactions message)
                  else (Returns True, m_reactions message))
           in (res, ms[i := message\<lparr>m_reactions := r\<rparr>])))"

section \<open>Handlers of \<^verbatim>\<open>server.js\<close>\<close>

text \<open>
  Each handler takes the state, the id of the socket the event arrived on, the fields of
  the payload (strings; an absent field is the empty string, which JavaScript also treats
  as falsy) and the clock readings and generated ids it uses, and returns the new state
  and the events emitted, in order. \<open>sockets\<close> is the set of ids for which
  \<^verbatim>\<open>io.sockets.sockets.get\<close> finds a socket.
\<close>

definition defaultAvatar :: string where
  "defaultAvatar = [CHR 0xF0, CHR 0x9F, CHR 0x98, CHR 0x8A]"

text \<open>\<^verbatim>\<open>Array.from(connectedUsers.values()).find(user => user.username === name)\<close>.\<close>

definition findUser :: "(sid \<times> userData) list \<Rightarrow> string \<Rightarrow> userData option" where
  "findUser users name = find (\<lambda>u. u_username u = name) (map snd users)"

definition broadcastUserCount :: "(sid \<times> userData) list \<Rightarrow> emit list" where
  "broadcastUserCount users =
     [(ToAll, UserCount (length users)),
      (ToAll, OnlineUsers
         (map (\<lambda>(_, u). (u_username u,
                 case u_avatar u of
                   None \<Rightarrow> defaultAvatar
                 | Some a \<Rightarrow> if a = [] then defaultAvatar else a)) users))]"

text \<open>
  \<^verbatim>\<open>socket.on('login')\<close>. \<open>hashPassword\<close> is the SHA-256 hex digest of the crypto
  library. The \<^verbatim>\<open>return\<close> after the "already logged in" error is commented out in
  the source, so the handler goes on.
\<close>

definition on_login ::
  "(string \<Rightarrow> string) \<Rightarrow> state \<Rightarrow> sid \<Rightarrow> string \<Rightarrow> string \<Rightarrow> int \<Rightarrow> int \<Rightarrow> int
     \<Rightarrow> state \<times> emit list" where
  "on_login hashPassword st sid name password nowJoin nowPrune nowSnapshot =
     (if name = [] \<or> password = [] then
        (st, [(ToSocket sid, LoginError ''Username and password required'')])
      else case map_of (registeredUsers st) name of
        None \<Rightarrow> (st, [(ToSocket sid, LoginError ''Invalid username or password'')])
      | Some user \<Rightarrow>
          if passwordHash user \<noteq> hashPassword password then
            (st, [(ToSocket sid, LoginError ''Invalid username or password'')])
          else
            (let existingUser = findUser (connectedUsers st) name;
                 e1 = (case existingUser of
                         None \<Rightarrow> []
                       | Some _ \<Rightarrow> [(ToSocket sid, LoginError ''User already logged in'')]);
                 users = AList.update sid
                           \<lparr>u_username = name, u_avatar = Some (acc_avatar user),
                            u_socketId = sid, u_joinTime = nowJoin\<rparr> (connectedUsers st);
                 e2 = [(ToSocket sid, LoginSuccess name (acc_avatar user)),
                       (ToAll, UserJoined name (Some (acc_avatar user)))];
                 e3 = broadcastUserCount users;
                 (pruned, e4) = pruneExpiredMessages nowPrune (recentMessages st);
                 recent24h = filter (within24h nowSnapshot) pruned
             in (st\<lparr>connectedUsers := users, recentMessages := pruned\<rparr>,
                 e1 @ e2 @ e3 @ e4 @ [(ToSocket sid, RecentMessages recent24h)])))"

text \<open>
  \<^verbatim>\<open>socket.on("chat message")\<close>. \<open>newId\<close> is the id the handler generates,
  \<open>genId\<close> the one \<^verbatim>\<open>addMessageToHistory\<close> would generate; \<open>nowLimit\<close>,
  \<open>nowStamp\<close> and \<open>nowPrune\<close> are the clock readings of the rate limiter, of the
  message's timestamp and of the pruning.
\<close>

definition on_chat_message ::
  "state \<Rightarrow> sid \<Rightarrow> string \<Rightarrow> string option \<Rightarrow> int \<Rightarrow> string \<Rightarrow> string \<Rightarrow> int \<Rightarrow> int
     \<Rightarrow> state \<times> emit list" where
  "on_chat_message st sid dataMessage dataReplyTo nowLimit newId genId nowStamp nowPrune =
     (case checkRateLimit nowLimit sid (messageLimits st) of
        (False, limits) \<Rightarrow>
          (st\<lparr>messageLimits := limits\<rparr>, [(ToSocket sid, ErrorEvent ''Rate limit exceeded'')])
      | (True, limits) \<Rightarrow>
          (let st1 = st\<lparr>messageLimits := limits\<rparr>;
               userData = map_of (connectedUsers st1) sid;
               name = (case userData of None \<Rightarrow> ''Unknown'' | Some u \<Rightarrow> u_username u);
               messageText = sanitizeMessage dataMessage
           in if messageText = [] then (st1, [])
              else
                (let messageData =
                       \<lparr>m_id = newId, m_username = name, m_message = messageText,
                        m_replyTo = (case dataReplyTo of
                                       None \<Rightarrow> None
                                     | Some r \<Rightarrow> if r = [] then None else Some r),
                        m_timestamp = Some nowStamp, m_reactions = [],
                        m_avatar = (case userData of
                                      None \<Rightarrow> Some defaultAvatar
                                    | Some u \<Rightarrow> u_avatar u)\<rparr>;
                     messageData1 = (if m_id messageData = [] then messageData\<lparr>m_id := genId\<rparr>
                                     else messageData);
                     (ms, out) = addMessageToHistory genId nowPrune messageData
                                   (recentMessages st1)
                 in (st1\<lparr>recentMessages := ms\<rparr>, out @ [(ToAll, ChatMessage messageData1)]))))"

text \<open>
  \<^verbatim>\<open>socket.on('message reaction')\<close>: the four fields must be truthy; an exception
  is caught and logged, what was mutated before it stays mutated.
\<close>

definition on_message_reaction ::
  "state \<Rightarrow> sid \<Rightarrow> string \<Rightarrow> string \<Rightarrow> string \<Rightarrow> string \<Rightarrow> state \<times> emit list" where
  "on_message_reaction st sid messageId reaction name action =
     (if messageId = [] \<or> reaction = [] \<or> name = [] \<or> action = [] then (st, [])
      else case updateMessageReactions messageId reaction name action (recentMessages st) of
        (Throws, ms) \<Rightarrow> (st\<lparr>recentMessages := ms\<rparr>, [])
      | (Returns ok, ms) \<Rightarrow>
          (st\<lparr>recentMessages := ms\<rparr>,
           if ok then [(ToAll, MessageReaction messageId reaction name action)] else []))"



definition addPrivateMessageToHistory ::
  "string \<Rightarrow> privateMsg \<Rightarrow> (string \<times> chat) list \<Rightarrow> (string \<times> chat) list" where
  "addPrivateMessageToHistory chatId messageData chats =
     (case map_of chats chatId of
        None \<Rightarrow> chats
      | Some c \<Rightarrow>
          (let pushed = c_messages c @ [messageData]
           in AList.update chatId
                (c\<lparr>c_messages := (if length pushed > 100 then tl pushed else pushed)\<rparr>) chats))"


text \<open>
  \<^verbatim>\<open>socket.on('private message')\<close> of \<^verbatim>\<open>server.js\<close>: no rate limit, no check of
  the chat or of its participants. \<open>newId\<close> is \<^verbatim>\<open>String(Date.now())\<close>.
\<close>

definition on_private_message ::
  "sid set \<Rightarrow> state \<Rightarrow> sid \<Rightarrow> string \<Rightarrow> string \<Rightarrow> string \<Rightarrow> string \<Rightarrow> int
     \<Rightarrow> state \<times> emit list" where
  "on_private_message sockets st sid chatId messageText toUsername newId nowStamp =
     (case map_of (connectedUsers st) sid of
        None \<Rightarrow> (st, [])
      | Some userData \<Rightarrow>
          (let msgData = \<lparr>pm_id = newId, pm_username = u_username userData,
                          pm_message = sanitizeMessage messageText, pm_timestamp = nowStamp,
                          pm_chatId = Some chatId\<rparr>;
               chats = addPrivateMessageToHistory chatId msgData (privateChats st);
               targetUser = findUser (connectedUsers st) toUsername;
               e1 = (case targetUser of
                       None \<Rightarrow> []
                     | Some tu \<Rightarrow>
                         if u_socketId tu \<in> sockets then
                           [(ToSocket (u_socketId tu), PrivateMessage msgData)]
                         else [])
           in (st\<lparr>privateChats := chats\<rparr>, e1 @ [(ToSocket sid, PrivateMessage msgData)])))"

text \<open>\<^verbatim>\<open>socket.on("disconnect")\<close> of \<^verbatim>\<open>server.js\<close>.\<close>

definition on_disconnect :: "state \<Rightarrow> sid \<Rightarrow> state \<times> emit list" where
  "on_disconnect st sid =
     (case map_of (connectedUsers st) sid of
        None \<Rightarrow> (st, [])
      | Some user \<Rightarrow>
          (let users = AList.delete sid (connectedUsers st)
           in (st\<lparr>connectedUsers := users,
                  typingUsers := AList.delete (u_username user) (typingUsers st)\<rparr>,
               (ToAll, UserLeft (u_username user)) # broadcastUserCount users)))"

section \<open>Handlers of \<^verbatim>\<open>part_001\<close>\<close>

text \<open>
  The anonymous variant: no accounts, the history snapshot is sent on connection, and a
  joining user picks a name. Its two private-chat handlers call
  \<^verbatim>\<open>getOrCreatePrivateChat\<close> and \<^verbatim>\<open>addPrivateMessageToHistory\<close>, names this
  file binds nowhere: the call throws a \<^verbatim>\<open>ReferenceError\<close>, which the handler's
  \<^verbatim>\<open>catch\<close> block receives.
\<close>

text \<open>The decimal digits of a number, as a template literal prints it.\<close>

fun decimal :: "nat \<Rightarrow> string" where
  "decimal n =
     (if n < 10 then [''0123456789'' ! n]
      else decimal (n div 10) @ [''0123456789'' ! (n mod 10)])"

declare decimal.simps [simp del]

definition getOnlineUsers :: "(sid \<times> userData) list \<Rightarrow> string list" where
  "getOnlineUsers users = map (\<lambda>(_, u). u_username u) users"

definition broadcastUserCount_p1 :: "(sid \<times> userData) list \<Rightarrow> emit list" where
  "broadcastUserCount_p1 users =
     [(ToAll, UserCount (length users)), (ToAll, OnlineNames (getOnlineUsers users))]"

text \<open>The body of \<^verbatim>\<open>io.on("connection")\<close> before the handlers are registered.\<close>

definition on_connection_p1 :: "state \<Rightarrow> sid \<Rightarrow> int \<Rightarrow> int \<Rightarrow> state \<times> emit list" where
  "on_connection_p1 st sid nowPrune nowSnapshot =
     (let (pruned, e) = pruneExpiredMessages nowPrune (recentMessages st);
          recent24h = filter (within24h nowSnapshot) pruned
      in (st\<lparr>recentMessages := pruned\<rparr>, e @ [(ToSocket sid, RecentMessages recent24h)]))"

text \<open>
  \<^verbatim>\<open>socket.on('user joined')\<close>. \<open>draw1\<close> is
  \<^verbatim>\<open>Math.floor(Math.random() * 10000)\<close> and \<open>draw2\<close> is
  \<^verbatim>\<open>Math.floor(Math.random() * 1000)\<close>; each is read only on the path that uses it.
\<close>

definition on_user_joined_p1 ::
  "state \<Rightarrow> sid \<Rightarrow> string \<Rightarrow> nat \<Rightarrow> nat \<Rightarrow> int \<Rightarrow> state \<times> emit list" where
  "on_user_joined_p1 st sid dataUsername draw1 draw2 nowJoin =
     (let name0 = (case sanitizeUsername dataUsername of
                     None \<Rightarrow> ''User'' @ decimal draw1
                   | Some n \<Rightarrow> n);
          existingUser = find (\<lambda>u. u_username u = name0 \<and> u_socketId u \<noteq> sid)
                           (map snd (connectedUsers st));
          name1 = (case existingUser of
                     None \<Rightarrow> name0
                   | Some _ \<Rightarrow> name0 @ ''_'' @ decimal draw2);
          users = AList.update sid
                    \<lparr>u_username = name1, u_avatar = None, u_socketId = sid,
                     u_joinTime = nowJoin\<rparr> (connectedUsers st)
      in (st\<lparr>connectedUsers := users\<rparr>,
          [(ToSocket sid, UsernameAssigned name1), (ToAll, UserJoined name1 None)]
          @ broadcastUserCount_p1 users))"

text \<open>\<^verbatim>\<open>socket.on('username changed')\<close>.\<close>

definition on_username_changed_p1 :: "state \<Rightarrow> sid \<Rightarrow> string \<Rightarrow> state \<times> emit list" where
  "on_username_changed_p1 st sid dataNewUsername =
     (case sanitizeUsername dataNewUsername of
        None \<Rightarrow> (st, [])
      | Some newName \<Rightarrow>
          (case map_of (connectedUsers st) sid of
             None \<Rightarrow> (st, [])
           | Some user \<Rightarrow>
               (let users = AList.update sid (user\<lparr>u_username := newName\<rparr>) (connectedUsers st)
                in (st\<lparr>connectedUsers := users\<rparr>,
                    (ToAll, UsernameChanged (u_username user) newName)
                    # broadcastUserCount_p1 users))))"

text \<open>\<^verbatim>\<open>handleUserDisconnect\<close>, run on \<^verbatim>\<open>'user leaving'\<close> and on \<^verbatim>\<open>"disconnect"\<close>.\<close>

definition handleUserDisconnect_p1 :: "state \<Rightarrow> sid \<Rightarrow> state \<times> emit list" where
  "handleUserDisconnect_p1 st sid =
     (case map_of (connectedUsers st) sid of
        None \<Rightarrow> (st, [])
      | Some user \<Rightarrow>
          (let users = AList.delete sid (connectedUsers st)
           in (st\<lparr>connectedUsers := users,
                  typingUsers := AList.delete (u_username user) (typingUsers st)\<rparr>,
               (ToAll, UserLeft (u_username user)) # broadcastUserCount_p1 users)))"

text \<open>
  \<^verbatim>\<open>socket.on('accept private chat')\<close> of \<^verbatim>\<open>part_001\<close>: after the three guards
  the call of \<^verbatim>\<open>getOrCreatePrivateChat\<close> throws; the \<^verbatim>\<open>catch\<close> block logs the
  error and emits nothing, so no chat is created and nobody is notified.
\<close>

definition on_accept_private_chat_p1 :: "state \<Rightarrow> sid \<Rightarrow> string \<Rightarrow> state \<times> emit list" where
  "on_accept_private_chat_p1 st sid fromUsername =
     (case map_of (connectedUsers st) sid of
        None \<Rightarrow> (st, [(ToSocket sid, ErrorEvent ''User not found. Please refresh.'')])
      | Some userData \<Rightarrow>
          if fromUsername = [] then (st, [(ToSocket sid, ErrorEvent ''Invalid sender'')])
          else
            (case findUser (connectedUsers st) fromUsername of
               None \<Rightarrow> (st, [(ToSocket sid, ErrorEvent ''User is no longer online'')])
             | Some senderUser \<Rightarrow> (st, [])))"

text \<open>
  \<^verbatim>\<open>socket.on('private message')\<close> of \<^verbatim>\<open>part_001\<close>: when every check has passed,
  the call of \<^verbatim>\<open>addPrivateMessageToHistory\<close> throws; the \<^verbatim>\<open>catch\<close> block emits
  "Failed to send private message" to the sender, and nothing is stored or delivered.
\<close>

definition on_private_message_p1 ::
  "state \<Rightarrow> sid \<Rightarrow> string \<Rightarrow> string \<Rightarrow> string \<Rightarrow> int \<Rightarrow> state \<times> emit list" where
  "on_private_message_p1 st sid chatId messageText toUsername nowLimit =
     (case checkRateLimit nowLimit sid (messageLimits st) of
        (False, limits) \<Rightarrow>
          (st\<lparr>messageLimits := limits\<rparr>,
           [(ToSocket sid, ErrorEvent ''Rate limit exceeded. Please slow down.'')])
      | (True, limits) \<Rightarrow>
          (let st1 = st\<lparr>messageLimits := limits\<rparr>
           in case map_of (connectedUsers st1) sid of
                None \<Rightarrow> (st1, [(ToSocket sid, ErrorEvent ''User not found. Please refresh.'')])
              | Some userData \<Rightarrow>
                  if chatId = [] \<or> messageText = [] \<or> toUsername = [] then
                    (st1, [(ToSocket sid, ErrorEvent ''Invalid private message data'')])
                  else
                    (let sanitizedMessage = sanitizeMessage messageText
                     in if sanitizedMessage = [] then
                          (st1, [(ToSocket sid, ErrorEvent ''Invalid message'')])
                        else
                          (case map_of (privateChats st1) chatId of
                             None \<Rightarrow> (st1, [(ToSocket sid, ErrorEvent ''Invalid chat room'')])
                           | Some c \<Rightarrow>
                               if u_username userData \<notin> c_participants c
                                  \<or> toUsername \<notin> c_participants c then
                                 (st1, [(ToSocket sid, ErrorEvent ''Invalid chat room'')])
                               else
                                 (st1, [(ToSocket sid,
                                         ErrorEvent ''Failed to send private message'')])))))"

section \<open>Handlers of \<^verbatim>\<open>part_002\<close>\<close>

text \<open>
  The private-chat part of \<^verbatim>\<open>part_002\<close>: its two handlers have the text of those of
  \<^verbatim>\<open>part_001\<close>, but for an error event that the \<^verbatim>\<open>catch\<close> block of the accept
  handler emits, and the helpers they call are defined, so that no call throws.
\<close>




text \<open>
  \<^verbatim>\<open>addPrivateMessageToHistory\<close> of \<^verbatim>\<open>part_002\<close>; the boolean is its result.
\<close>

definition addPrivateMessageToHistory_p2 ::
  "string \<Rightarrow> string \<Rightarrow> privateMsg \<Rightarrow> (string \<times> chat) list \<Rightarrow> bool \<times> (string \<times> chat) list" where
  "addPrivateMessageToHistory_p2 genId chatId messageData chats =
     (case map_of chats chatId of
        None \<Rightarrow> (False, chats)
      | Some c \<Rightarrow>
          (let messageData1 = (if pm_id messageData = [] then messageData\<lparr>pm_id := genId\<rparr>
                               else messageData);
               pushed = c_messages c @ [messageData1]
           in (True,
               AList.update chatId
                 (c\<lparr>c_messages := (if length pushed > MAX_PRIVATE_MESSAGES then tl pushed
                                    else pushed)\<rparr>) chats)))"



text \<open>
  \<^verbatim>\<open>socket.on('private message')\<close> of \<^verbatim>\<open>part_002\<close>. \<open>dataId\<close> is the optional
  \<^verbatim>\<open>data.id\<close>, \<open>newId\<close> the id generated when it is missing.
\<close>

definition on_private_message_p2 ::
  "sid set \<Rightarrow> state \<Rightarrow> sid \<Rightarrow> string \<Rightarrow> string \<Rightarrow> string \<Rightarrow> string \<Rightarrow> int \<Rightarrow> string \<Rightarrow> string
     \<Rightarrow> int \<Rightarrow> state \<times> emit list" where
  "on_private_message_p2 sockets st sid dataId chatId messageText toUsername nowLimit newId
       genId nowStamp =
     (case checkRateLimit nowLimit sid (messageLimits st) of
        (False, limits) \<Rightarrow>
          (st\<lparr>messageLimits := limits\<rparr>,
           [(ToSocket sid, ErrorEvent ''Rate limit exceeded. Please slow down.'')])
      | (True, limits) \<Rightarrow>
          (let st1 = st\<lparr>messageLimits := limits\<rparr>
           in case map_of (connectedUsers st1) sid of
                None \<Rightarrow> (st1, [(ToSocket sid, ErrorEvent ''User not found. Please refresh.'')])
              | Some userData \<Rightarrow>
                  if chatId = [] \<or> messageText = [] \<or> toUsername = [] then
                    (st1, [(ToSocket sid, ErrorEvent ''Invalid private message data'')])
                  else
                    (let sanitizedMessage = sanitizeMessage messageText
                     in if sanitizedMessage = [] then
                          (st1, [(ToSocket sid, ErrorEvent ''Invalid message'')])
                        else
                          (case map_of (privateChats st1) chatId of
                             None \<Rightarrow> (st1, [(ToSocket sid, ErrorEvent ''Invalid chat room'')])
                           | Some c \<Rightarrow>
                               if u_username userData \<notin> c_participants c
                                  \<or> toUsername \<notin> c_participants c then
                                 (st1, [(ToSocket sid, ErrorEvent ''Invalid chat room'')])
                               else
                                 (let messageData =
                                        \<lparr>pm_id = (if dataId = [] then newId else dataId),
                                         pm_username = u_username userData,
                                         pm_message = sanitizedMessage,
                                         pm_timestamp = nowStamp, pm_chatId = None\<rparr>;
                                      messageData1 =
                                        (if pm_id messageData = [] then
                                           messageData\<lparr>pm_id := genId\<rparr>
                                         else messageData);
                                      chats = snd (addPrivateMessageToHistory_p2 genId chatId
                                                     messageData (privateChats st1));
                                      e1 = (case findUser (connectedUsers st1) toUsername of
                                              None \<Rightarrow> []
                                            | Some targetUser \<Rightarrow>
                                                if u_socketId targetUser \<in> sockets then
                                                  [(ToSocket (u_socketId targetUser),
                                                    PrivateMessageFrom messageData1 chatId
                                                      (u_username userData))]
                                                else [])
                                  in (st1\<lparr>privateChats := chats\<rparr>,
                                      e1 @ [(ToSocket sid,
                                             PrivateMessageFrom messageData1 chatId
                                               (u_username userData))]))))))"

section \<open>Notions used in the statements\<close>

text \<open>The state at start-up: every map and the history are empty.\<close>

definition initialState :: state where
  "initialState = \<lparr>registeredUsers = [], connectedUsers = [], recentMessages = [],
     typingUsers = [], privateChats = [], userPrivateChats = [], messageLimits = []\<rparr>"

text \<open>A message as the chat handler builds it, with a given id and timestamp.\<close>

definition textMessage :: "string \<Rightarrow> int \<Rightarrow> message" where
  "textMessage i ts = \<lparr>m_id = i, m_username = ''alice'', m_message = ''hi'', m_replyTo = None,
     m_timestamp = Some ts, m_reactions = [], m_avatar = None\<rparr>"

text \<open>Two joined users, alice on socket \<open>s1\<close> and bob on socket \<open>s2\<close>.\<close>

definition aliceAndBob :: state where
  "aliceAndBob = initialState\<lparr>connectedUsers :=
     [(''s1'', \<lparr>u_username = ''alice'', u_avatar = None, u_socketId = ''s1'', u_joinTime = 0\<rparr>),
      (''s2'', \<lparr>u_username = ''bob'', u_avatar = None, u_socketId = ''s2'', u_joinTime = 0\<rparr>)]\<rparr>"


text \<open>The reaction symbols whose user array contains the user.\<close>

definition holders :: "string \<Rightarrow> reactions \<Rightarrow> string list" where
  "holders u r = map fst (filter (\<lambda>(k, users). u \<in> set users) r)"

text \<open>
  A reactions object as the server builds it: keys are unique (it is an object), no user
  occurs twice in it, neither within one array nor in two, and no array is empty.
\<close>

definition wellFormed :: "reactions \<Rightarrow> bool" where
  "wellFormed r =
     (distinct (map fst r) \<and> distinct (concat (map snd r)) \<and> [] \<notin> set (map snd r))"

text \<open>
  A sequence of calls of \<^verbatim>\<open>updateMessageReactions\<close>, each given as
  (messageId, reaction, username, action); the history after the last one, whether a
  call returned or threw.
\<close>

fun applyCalls :: "(string \<times> string \<times> string \<times> string) list \<Rightarrow> message list \<Rightarrow> message list" where
  "applyCalls [] ms = ms"
| "applyCalls ((messageId, reaction, name, action) # calls) ms =
     applyCalls calls (snd (updateMessageReactions messageId reaction name action ms))"

text \<open>
  The entries of a reactions object once a user is taken out of every array, entries left
  empty dropped.
\<close>

fun withoutUser :: "string \<Rightarrow> reactions \<Rightarrow> reactions" where
  "withoutUser u [] = []"
| "withoutUser u ((k, users) # entries) =
     (if remove1 u users = [] then withoutUser u entries
      else (k, remove1 u users) # withoutUser u entries)"

section \<open>Rate limiter: window semantics\<close>

lemma map_of_update_same: "map_of (AList.update k v al) k = Some v"
  by (simp add: update_conv')

lemma checkRateLimit_fresh:
  "map_of limits socketId = None \<Longrightarrow>
   checkRateLimit now socketId limits =
     (True, AList.update socketId \<lparr>l_count = 1, l_resetTime = now + 60000\<rparr> limits)"
  by (simp add: checkRateLimit_def RATE_LIMIT_WINDOW_def)

lemma checkRateLimit_expired:
  "map_of limits socketId = Some l \<Longrightarrow> now > l_resetTime l \<Longrightarrow>
   checkRateLimit now socketId limits =
     (True, AList.update socketId \<lparr>l_count = 1, l_resetTime = now + 60000\<rparr> limits)"
  by (simp add: checkRateLimit_def RATE_LIMIT_WINDOW_def)

lemma checkRateLimit_denied:
  "map_of limits socketId = Some l \<Longrightarrow> now \<le> l_resetTime l \<Longrightarrow> 10 \<le> l_count l \<Longrightarrow>
   checkRateLimit now socketId limits = (False, limits)"
  by (simp add: checkRateLimit_def MESSAGE_RATE_LIMIT_def)

lemma checkRateLimit_counted:
  "map_of limits socketId = Some l \<Longrightarrow> now \<le> l_resetTime l \<Longrightarrow> l_count l < 10 \<Longrightarrow>
   checkRateLimit now socketId limits =
     (True, AList.update socketId (l\<lparr>l_count := l_count l + 1\<rparr>) limits)"
  by (simp add: checkRateLimit_def MESSAGE_RATE_LIMIT_def)

lemma map_upt_shift: "map f [Suc 0..<Suc n] = map (\<lambda>k. f (Suc k)) [0..<n]"
  by (simp add: map_Suc_upt [symmetric] del: upt_Suc)

lemma allowCalls_in_window:
  "map_of limits socketId = Some \<lparr>l_count = c, l_resetTime = r\<rparr> \<Longrightarrow> c \<le> 10 \<Longrightarrow>
   \<forall>t \<in> set ts. t \<le> r \<Longrightarrow>
   allowCalls ts socketId limits =
     (map (\<lambda>k. c + k < 10) [0..<length ts],
      AList.update socketId \<lparr>l_count = min (c + length ts) 10, l_resetTime = r\<rparr> limits)"
proof (induction ts arbitrary: c limits)
  case Nil
  then show ?case by (simp add: update_triv)
next
  case (Cons t ts)
  show ?case
  proof (cases "c < 10")
    case True
    let ?l1 = "AList.update socketId \<lparr>l_count = Suc c, l_resetTime = r\<rparr> limits"
    have step: "checkRateLimit t socketId limits = (True, ?l1)"
      using checkRateLimit_counted [OF Cons.prems(1), of t] Cons.prems(3) True by simp
    have "map_of ?l1 socketId = Some \<lparr>l_count = Suc c, l_resetTime = r\<rparr>"
      by (simp add: update_conv')
    from Cons.IH [OF this] True Cons.prems(3)
    have "allowCalls ts socketId ?l1 =
      (map (\<lambda>k. Suc c + k < 10) [0..<length ts],
       AList.update socketId \<lparr>l_count = min (Suc c + length ts) 10, l_resetTime = r\<rparr> ?l1)"
      by simp
    then show ?thesis using step True
      by (simp add: upt_conv_Cons map_upt_shift del: upt_Suc)
  next
    case False
    with Cons.prems have c: "c = 10" by simp
    have step: "checkRateLimit t socketId limits = (False, limits)"
      using checkRateLimit_denied [OF Cons.prems(1), of t] Cons.prems(3) c by simp
    from Cons.IH [OF Cons.prems(1) Cons.prems(2)] Cons.prems(3)
    have "allowCalls ts socketId limits =
      (map (\<lambda>k. c + k < 10) [0..<length ts],
       AList.update socketId \<lparr>l_count = min (c + length ts) 10, l_resetTime = r\<rparr> limits)"
      by simp
    then show ?thesis using step c
      by (simp add: upt_conv_Cons map_upt_shift del: upt_Suc)
  qed
qed

text \<open>
  Claim C4. A call in a new or expired window (no entry for the connection, or the clock
  past the stored reset time) is followed by any number of calls whose clock readings are
  not past the new reset time \<open>t0 + 60000\<close>. The first call opens the window with
  count 1 and reset time \<open>t0 + 60000\<close>; of the whole run exactly calls 1 to 10 return
  true; every later call returns false and leaves the counter at 10 (no slot consumed),
  and the reset time is never moved inside the window. With an empty run this is the call
  after expiry: true, fresh window, count 1.
\<close>

theorem rate_limit_window:
  assumes fresh: "map_of limits socketId = None \<or>
                  (\<exists>l. map_of limits socketId = Some l \<and> t0 > l_resetTime l)"
      and inwin: "\<forall>t \<in> set ts. t \<le> t0 + 60000"
  shows "allowCalls (t0 # ts) socketId limits =
           (map (\<lambda>k. k < 10) [0..<Suc (length ts)],
            AList.update socketId
              \<lparr>l_count = min (Suc (length ts)) 10, l_resetTime = t0 + 60000\<rparr> limits)"
proof -
  let ?l1 = "AList.update socketId \<lparr>l_count = 1, l_resetTime = t0 + 60000\<rparr> limits"
  have first: "checkRateLimit t0 socketId limits = (True, ?l1)"
    using fresh checkRateLimit_fresh checkRateLimit_expired by blast
  have "map_of ?l1 socketId = Some \<lparr>l_count = 1, l_resetTime = t0 + 60000\<rparr>"
    by (simp add: update_conv')
  from allowCalls_in_window [OF this _ inwin]
  have "allowCalls ts socketId ?l1 =
     (map (\<lambda>k. 1 + k < 10) [0..<length ts],
      AList.update socketId \<lparr>l_count = min (1 + length ts) 10, l_resetTime = t0 + 60000\<rparr> ?l1)"
    by simp
  then show ?thesis using first
    by (simp add: upt_conv_Cons map_upt_shift del: upt_Suc)
qed

theorem rate_limit_window_witness:
  "allowCalls [1000, 2000, 3000, 4000, 5000, 6000, 7000, 8000, 9000, 10000, 11000, 61000]
     ''s1'' [(''s1'', \<lparr>l_count = 10, l_resetTime = 500\<rparr>)] =
   ([True, True, True, True, True, True, True, True, True, True, False, False],
    [(''s1'', \<lparr>l_count = 10, l_resetTime = 61000\<rparr>)])"
  using rate_limit_window [of "[(''s1'', \<lparr>l_count = 10, l_resetTime = 500\<rparr>)]" "''s1''" 1000
      "[2000, 3000, 4000, 5000, 6000, 7000, 8000, 9000, 10000, 11000, 61000]"]
  by (simp add: upt_conv_Cons)

section \<open>Reactions: one reaction per user and message\<close>

lemma findIndex_None: "findIndex p xs = None \<longleftrightarrow> (\<forall>x\<in>set xs. \<not> p x)"
  by (induction xs) auto

lemma findIndex_Some: "findIndex p xs = Some i \<Longrightarrow> i < length xs \<and> p (xs ! i)"
proof (induction xs arbitrary: i)
  case Nil then show ?case by simp
next
  case (Cons x xs)
  show ?case
  proof (cases "p x")
    case True with Cons.prems show ?thesis by simp
  next
    case False
    with Cons.prems obtain k where k: "findIndex p xs = Some k" "i = Suc k" by auto
    from Cons.IH [OF k(1)] k(2) show ?thesis by simp
  qed
qed

lemma indexOf_None: "indexOf xs x = None \<longleftrightarrow> x \<notin> set xs"
  by (auto simp: indexOf_def findIndex_None)

lemma indexOf_splice: "indexOf xs x = Some i \<Longrightarrow> splice1 xs i = remove1 x xs \<and> x \<in> set xs"
proof (induction xs arbitrary: i)
  case Nil then show ?case by (simp add: indexOf_def)
next
  case (Cons y ys)
  show ?case
  proof (cases "y = x")
    case True with Cons.prems show ?thesis by (simp add: indexOf_def splice1_def)
  next
    case False
    with Cons.prems obtain k where k: "indexOf ys x = Some k" "i = Suc k"
      by (auto simp: indexOf_def)
    from Cons.IH [OF k(1)] k(2) False show ?thesis by (simp add: splice1_def)
  qed
qed

lemma delete_append_hit:
  "k \<notin> fst ` set pre \<Longrightarrow> k \<notin> fst ` set es \<Longrightarrow> AList.delete k (pre @ (k, v) # es) = pre @ es"
proof -
  assume a: "k \<notin> fst ` set pre" "k \<notin> fst ` set es"
  have "filter (\<lambda>(k', _). k \<noteq> k') pre = pre" "filter (\<lambda>(k', _). k \<noteq> k') es = es"
    using a by (force simp: filter_id_conv)+
  then show ?thesis by (simp add: AList.delete_eq)
qed

lemma update_append_hit:
  "k \<notin> fst ` set pre \<Longrightarrow> AList.update k v (pre @ (k, w) # es) = pre @ (k, v) # es"
  by (induction pre) auto

lemma update_append_miss:
  "k \<notin> fst ` set r \<Longrightarrow> AList.update k v r = r @ [(k, v)]"
  by (induction r) auto

lemma removeExisting_withoutUser:
  "distinct (map fst (pre @ es)) \<Longrightarrow> [] \<notin> snd ` set es \<Longrightarrow>
   removeExisting u es (pre @ es) = pre @ withoutUser u es"
proof (induction es arbitrary: pre)
  case Nil then show ?case by simp
next
  case (Cons e es)
  obtain k users where e: "e = (k, users)" by (cases e)
  from Cons.prems e have kpre: "k \<notin> fst ` set pre" and kes: "k \<notin> fst ` set es"
    and des: "distinct (map fst (pre @ es))" and ne: "users \<noteq> []" "[] \<notin> snd ` set es"
    by auto
  show ?case
  proof (cases "indexOf users u")
    case None
    then have "remove1 u users = users" by (simp add: indexOf_None remove1_idem)
    moreover have "removeExisting u es ((pre @ [(k, users)]) @ es) = (pre @ [(k, users)]) @ withoutUser u es"
      using Cons.prems e ne by (intro Cons.IH) auto
    ultimately show ?thesis using None e ne by simp
  next
    case (Some i)
    then have sp: "splice1 users i = remove1 u users" by (simp add: indexOf_splice)
    show ?thesis
    proof (cases "remove1 u users = []")
      case True
      have "removeExisting u es (pre @ es) = pre @ withoutUser u es"
        using des ne by (intro Cons.IH) auto
      then show ?thesis using Some e sp True kpre kes
        by (simp add: delete_append_hit)
    next
      case False
      have "removeExisting u es ((pre @ [(k, remove1 u users)]) @ es)
              = (pre @ [(k, remove1 u users)]) @ withoutUser u es"
        using Cons.prems e ne by (intro Cons.IH) auto
      then show ?thesis using Some e sp False kpre
        by (simp add: update_append_hit)
    qed
  qed
qed

lemma withoutUser_keys: "set (map fst (withoutUser u r)) \<subseteq> set (map fst r)"
  by (induction u r rule: withoutUser.induct) auto

lemma withoutUser_distinct_keys: "distinct (map fst r) \<Longrightarrow> distinct (map fst (withoutUser u r))"
proof (induction u r rule: withoutUser.induct)
  case (1 u) then show ?case by simp
next
  case (2 u k users entries)
  then show ?case using withoutUser_keys [of u entries] by auto
qed

lemma withoutUser_concat:
  "distinct (concat (map snd r)) \<Longrightarrow>
   concat (map snd (withoutUser u r)) = removeAll u (concat (map snd r))"
proof (induction u r rule: withoutUser.induct)
  case (1 u) then show ?case by simp
next
  case (2 u k users entries)
  then have "distinct users" "distinct (concat (map snd entries))" by auto
  with 2 show ?case by (auto simp: distinct_remove1_removeAll)
qed

lemma withoutUser_nonempty: "[] \<notin> snd ` set (withoutUser u r)"
  by (induction u r rule: withoutUser.induct) auto

lemma withoutUser_map_of:
  "distinct (map fst r) \<Longrightarrow>
   map_of (withoutUser u r) k =
     (case map_of r k of
        None \<Rightarrow> None
      | Some users \<Rightarrow> if remove1 u users = [] then None else Some (remove1 u users))"
proof (induction u r rule: withoutUser.induct)
  case (1 u) then show ?case by simp
next
  case (2 u k' users entries)
  from 2(3) have d: "distinct (map fst entries)" and nk: "k' \<notin> fst ` set entries" by simp_all
  from nk withoutUser_keys [of u entries] have "k' \<notin> fst ` set (withoutUser u entries)"
    by auto
  then have none: "map_of (withoutUser u entries) k' = None" by (simp add: map_of_eq_None_iff)
  from nk have none': "map_of entries k' = None" by (simp add: map_of_eq_None_iff)
  show ?case
  proof (cases "remove1 u users = []")
    case True
    with 2(1) [OF True d] none none' show ?thesis by simp
  next
    case False
    with 2(2) [OF False d] show ?thesis by simp
  qed
qed

lemma withoutUser_wellFormed:
  assumes "wellFormed r"
  shows "wellFormed (withoutUser u r)" and "u \<notin> set (concat (map snd (withoutUser u r)))"
proof -
  from assms have d: "distinct (map fst r)" "distinct (concat (map snd r))"
    by (simp_all add: wellFormed_def)
  have c: "concat (map snd (withoutUser u r)) = removeAll u (concat (map snd r))"
    using d(2) by (rule withoutUser_concat)
  show "wellFormed (withoutUser u r)"
    unfolding wellFormed_def c
    using d withoutUser_nonempty [of u r] by (simp add: withoutUser_distinct_keys distinct_removeAll)
  show "u \<notin> set (concat (map snd (withoutUser u r)))"
    unfolding c by simp
qed

lemma holders_Cons:
  "holders u ((k, users) # r) = (if u \<in> set users then k # holders u r else holders u r)"
  by (simp add: holders_def)

lemma holders_absent: "u \<notin> set (concat (map snd r)) \<Longrightarrow> holders u r = []"
proof (induction r)
  case Nil then show ?case by (simp add: holders_def)
next
  case (Cons e r)
  obtain k users where e: "e = (k, users)" by (cases e)
  from Cons.prems e have "u \<notin> set users" "u \<notin> set (concat (map snd r))" by simp_all
  with Cons.IH e show ?case by (simp add: holders_Cons)
qed

lemma holders_le1: "distinct (concat (map snd r)) \<Longrightarrow> length (holders u r) \<le> 1"
proof (induction r)
  case Nil then show ?case by (simp add: holders_def)
next
  case (Cons e r)
  obtain k users where e: "e = (k, users)" by (cases e)
  from Cons.prems e have dis: "set users \<inter> set (concat (map snd r)) = {}"
    and d: "distinct (concat (map snd r))" by simp_all
  show ?case
  proof (cases "u \<in> set users")
    case True
    with dis have "u \<notin> set (concat (map snd r))" by blast
    then have "holders u r = []" by (rule holders_absent)
    with True e show ?thesis by (simp add: holders_Cons)
  next
    case False
    with Cons.IH [OF d] e show ?thesis by (simp add: holders_Cons)
  qed
qed

lemma map_of_split:
  assumes a: "map_of r k = Some v" and d: "distinct (map fst r)"
  shows "\<exists>pre post. r = pre @ (k, v) # post \<and> k \<notin> fst ` set pre \<and> k \<notin> fst ` set post"
proof -
  from a have "(k, v) \<in> set r" by (rule map_of_SomeD)
  from split_list [OF this] obtain pre post where r: "r = pre @ (k, v) # post" by blast
  from d have "distinct (map fst (pre @ (k, v) # post))" by (simp only: r)
  then have "k \<notin> fst ` set pre \<and> k \<notin> fst ` set post" by auto
  with r show ?thesis by blast
qed

lemma wellFormed_append_new:
  assumes "wellFormed r" "k \<notin> fst ` set r" "u \<notin> set (concat (map snd r))"
  shows "wellFormed (r @ [(k, [u])])"
  using assms by (auto simp: wellFormed_def)

lemma wellFormed_replace_push:
  assumes "wellFormed (pre @ (k, users) # post)" "u \<notin> set (concat (map snd (pre @ (k, users) # post)))"
  shows "wellFormed (pre @ (k, users @ [u]) # post)"
  using assms by (auto simp: wellFormed_def)

lemma wellFormed_replace_remove1:
  assumes "wellFormed (pre @ (k, users) # post)" "remove1 u users \<noteq> []"
  shows "wellFormed (pre @ (k, remove1 u users) # post)"
proof -
  have "set (remove1 u users) \<subseteq> set users" by (rule set_remove1_subset)
  with assms show ?thesis by (auto simp: wellFormed_def)
qed

lemma wellFormed_drop_entry:
  assumes "wellFormed (pre @ (k, users) # post)"
  shows "wellFormed (pre @ post)"
  using assms by (auto simp: wellFormed_def)

lemma getProperty_cases:
  "getProperty r k = Undefined \<longleftrightarrow> map_of r k = None \<and> k \<notin> set protoKeys"
  "getProperty r k = Inherited \<longleftrightarrow> map_of r k = None \<and> k \<in> set protoKeys"
  "getProperty r k = OwnArray users \<longleftrightarrow> map_of r k = Some users"
  by (auto simp: getProperty_def split: option.splits)

lemma removeExisting_eq: "wellFormed r \<Longrightarrow> removeExisting u r r = withoutUser u r"
  using removeExisting_withoutUser [of "[]" r u] by (simp add: wellFormed_def)

lemma addReaction_wellFormed:
  assumes wf: "wellFormed r"
  shows "wellFormed (snd (addReaction reaction u r))"
proof -
  let ?r1 = "withoutUser u r"
  have wf1: "wellFormed ?r1" and nu: "u \<notin> set (concat (map snd ?r1))"
    using withoutUser_wellFormed [OF wf] by simp_all
  show ?thesis
  proof (cases "map_of ?r1 reaction")
    case None
    then have nk: "reaction \<notin> fst ` set ?r1" by (simp add: map_of_eq_None_iff)
    show ?thesis
    proof (cases "reaction \<in> set protoKeys")
      case True
      with None have "getProperty ?r1 reaction = Inherited" by (simp add: getProperty_cases)
      then show ?thesis using wf wf1 by (simp add: addReaction_def removeExisting_eq)
    next
      case False
      with None have g: "getProperty ?r1 reaction = Undefined" by (simp add: getProperty_cases)
      have g2: "getProperty (?r1 @ [(reaction, [])]) reaction = OwnArray []"
        using None by (simp add: getProperty_cases map_add_def)
      have "AList.update reaction [u] (?r1 @ [(reaction, [])]) = ?r1 @ [(reaction, [u])]"
        using update_append_hit [OF nk, of "[u]" "[]" "[]"] by simp
      then show ?thesis
        using wf g g2 wellFormed_append_new [OF wf1 nk nu]
        by (simp add: addReaction_def removeExisting_eq)
    qed
  next
    case (Some users)
    then have g: "getProperty ?r1 reaction = OwnArray users" by (simp add: getProperty_cases)
    from map_of_split [OF Some] wf1 obtain pre post where
      sp: "?r1 = pre @ (reaction, users) # post" "reaction \<notin> fst ` set pre"
      by (auto simp: wellFormed_def)
    from nu sp have notin: "u \<notin> set users" by auto
    have "wellFormed (pre @ (reaction, users @ [u]) # post)"
      using wellFormed_replace_push wf1 nu unfolding sp(1) by blast
    moreover have "AList.update reaction (users @ [u]) ?r1 = pre @ (reaction, users @ [u]) # post"
      unfolding sp(1) using sp(2) by (rule update_append_hit)
    ultimately show ?thesis using wf g notin
      by (simp add: addReaction_def removeExisting_eq)
  qed
qed

lemma removeReaction_wellFormed:
  assumes wf: "wellFormed r"
  shows "wellFormed (snd (removeReaction reaction u r))"
proof (cases "map_of r reaction")
  case None
  then show ?thesis using wf
    by (cases "reaction \<in> set protoKeys") (simp_all add: removeReaction_def getProperty_def)
next
  case (Some users)
  then have g: "getProperty r reaction = OwnArray users" by (simp add: getProperty_cases)
  from map_of_split [OF Some] wf obtain pre post where
    sp: "r = pre @ (reaction, users) # post" "reaction \<notin> fst ` set pre"
        "reaction \<notin> fst ` set post"
    by (auto simp: wellFormed_def)
  show ?thesis
  proof (cases "indexOf users u")
    case None
    with g wf show ?thesis by (simp add: removeReaction_def)
  next
    case (Some idx)
    then have s1: "splice1 users idx = remove1 u users" by (simp add: indexOf_splice)
    show ?thesis
    proof (cases "remove1 u users = []")
      case True
      have "AList.delete reaction r = pre @ post"
        unfolding sp(1) using sp(2,3) by (rule delete_append_hit)
      moreover have "wellFormed (pre @ post)"
        using wellFormed_drop_entry wf unfolding sp(1) by blast
      ultimately show ?thesis using g Some s1 True by (simp add: removeReaction_def)
    next
      case False
      have "AList.update reaction (remove1 u users) r = pre @ (reaction, remove1 u users) # post"
        unfolding sp(1) using sp(2) by (rule update_append_hit)
      moreover have "wellFormed (pre @ (reaction, remove1 u users) # post)"
        using wellFormed_replace_remove1 wf False unfolding sp(1) by blast
      ultimately show ?thesis using g Some s1 False by (simp add: removeReaction_def)
    qed
  qed
qed


lemma holders_append: "holders u (a @ b) = holders u a @ holders u b"
  by (simp add: holders_def)

lemma addReaction_result:
  assumes wf: "wellFormed r"
  shows "(fst (addReaction reaction u r) = Throws \<longrightarrow> reaction \<in> set protoKeys)
       \<and> (fst (addReaction reaction u r) \<noteq> Throws \<longrightarrow>
            fst (addReaction reaction u r) = Returns True
            \<and> holders u (snd (addReaction reaction u r)) = [reaction])
       \<and> (\<forall>k. k \<noteq> reaction \<longrightarrow>
             map_of (snd (addReaction reaction u r)) k = map_of (withoutUser u r) k)"
proof -
  let ?r1 = "withoutUser u r"
  have wf1: "wellFormed ?r1" and nu: "u \<notin> set (concat (map snd ?r1))"
    using withoutUser_wellFormed [OF wf] by simp_all
  show ?thesis
  proof (cases "map_of ?r1 reaction")
    case None
    then have nk: "reaction \<notin> fst ` set ?r1" by (simp add: map_of_eq_None_iff)
    show ?thesis
    proof (cases "reaction \<in> set protoKeys")
      case True
      with None have "getProperty ?r1 reaction = Inherited" by (simp add: getProperty_cases)
      then have "addReaction reaction u r = (Throws, ?r1)"
        using wf by (simp add: addReaction_def removeExisting_eq)
      with True show ?thesis by simp
    next
      case False
      with None have g: "getProperty ?r1 reaction = Undefined" by (simp add: getProperty_cases)
      have g2: "getProperty (?r1 @ [(reaction, [])]) reaction = OwnArray []"
        using None by (simp add: getProperty_cases map_add_def)
      have upd: "AList.update reaction [u] (?r1 @ [(reaction, [])]) = ?r1 @ [(reaction, [u])]"
        using update_append_hit [OF nk, of "[u]" "[]" "[]"] by simp
      have res: "addReaction reaction u r = (Returns True, ?r1 @ [(reaction, [u])])"
        using wf g g2 upd by (simp add: addReaction_def removeExisting_eq)
      have "holders u (?r1 @ [(reaction, [u])]) = [reaction]"
        using holders_absent [OF nu] by (simp add: holders_append holders_Cons) (simp add: holders_def)
      moreover have "\<forall>k. k \<noteq> reaction \<longrightarrow> map_of (?r1 @ [(reaction, [u])]) k = map_of ?r1 k"
        by (auto simp: map_add_def split: option.splits)
      ultimately show ?thesis using res by simp
    qed
  next
    case (Some users)
    then have g: "getProperty ?r1 reaction = OwnArray users" by (simp add: getProperty_cases)
    from map_of_split [OF Some] wf1 obtain pre post where
      sp: "?r1 = pre @ (reaction, users) # post" "reaction \<notin> fst ` set pre"
      by (auto simp: wellFormed_def)
    from nu sp have notin: "u \<notin> set users" "u \<notin> set (concat (map snd pre))"
      "u \<notin> set (concat (map snd post))" by auto
    have upd: "AList.update reaction (users @ [u]) ?r1 = pre @ (reaction, users @ [u]) # post"
      unfolding sp(1) using sp(2) by (rule update_append_hit)
    have res: "addReaction reaction u r = (Returns True, pre @ (reaction, users @ [u]) # post)"
      using wf g notin(1) upd by (simp add: addReaction_def removeExisting_eq)
    have "holders u (pre @ (reaction, users @ [u]) # post) = [reaction]"
      using holders_absent [OF notin(2)] holders_absent [OF notin(3)]
      by (simp add: holders_append holders_Cons)
    moreover have "\<forall>k. k \<noteq> reaction \<longrightarrow>
        map_of (pre @ (reaction, users @ [u]) # post) k = map_of ?r1 k"
      unfolding sp(1) by (auto simp: map_add_def split: option.splits)
    ultimately show ?thesis using res by simp
  qed
qed

lemma splice1_subset: "set (splice1 xs i) \<subseteq> set xs"
  by (auto simp: splice1_def dest: in_set_takeD in_set_dropD)

lemma deleteFirstWithId_subset: "set (deleteFirstWithId ms i) \<subseteq> set ms"
  by (auto simp: deleteFirstWithId_def split: option.splits dest: subsetD [OF splice1_subset])

lemma foldl_deleteFirstWithId_subset: "set (foldl deleteFirstWithId ms ids) \<subseteq> set ms"
proof (induction ids arbitrary: ms)
  case Nil then show ?case by simp
next
  case (Cons i ids)
  have "set (foldl deleteFirstWithId (deleteFirstWithId ms i) ids) \<subseteq> set (deleteFirstWithId ms i)"
    by (rule Cons.IH)
  with deleteFirstWithId_subset [of ms i] show ?case by auto
qed

lemma pruneExpiredMessages_subset: "set (fst (pruneExpiredMessages now ms)) \<subseteq> set ms"
  using foldl_deleteFirstWithId_subset by (simp add: pruneExpiredMessages_def Let_def)

lemma addMessageToHistory_subset:
  "set (fst (addMessageToHistory genId now messageData ms))
     \<subseteq> insert (if m_id messageData = [] then messageData\<lparr>m_id := genId\<rparr> else messageData)
         (set ms)"
proof -
  let ?pushed = "ms @ [if m_id messageData = [] then messageData\<lparr>m_id := genId\<rparr> else messageData]"
  have "set (fst (addMessageToHistory genId now messageData ms))
          \<subseteq> set (fst (pruneExpiredMessages now ?pushed))"
    by (auto simp: addMessageToHistory_def Let_def split_beta dest: in_set_dropD)
  also have "\<dots> \<subseteq> set ?pushed" by (rule pruneExpiredMessages_subset)
  finally show ?thesis by auto
qed

lemma addMessageToHistory_wellFormed:
  assumes "\<forall>m \<in> set ms. wellFormed (m_reactions m)" and "wellFormed (m_reactions messageData)"
  shows "\<forall>m \<in> set (fst (addMessageToHistory genId now messageData ms)).
           wellFormed (m_reactions m)"
proof
  fix m assume "m \<in> set (fst (addMessageToHistory genId now messageData ms))"
  with addMessageToHistory_subset [of genId now messageData ms]
  have "m = (if m_id messageData = [] then messageData\<lparr>m_id := genId\<rparr> else messageData)
        \<or> m \<in> set ms" by auto
  with assms show "wellFormed (m_reactions m)" by auto
qed

lemma updateMessageReactions_wellFormed:
  assumes "\<forall>m \<in> set ms. wellFormed (m_reactions m)"
  shows "\<forall>m \<in> set (snd (updateMessageReactions messageId reaction name action ms)).
           wellFormed (m_reactions m)"
proof (cases "findIndex (\<lambda>msg. m_id msg = messageId) ms")
  case None
  with assms show ?thesis by (simp add: updateMessageReactions_def)
next
  case (Some i)
  then have i: "i < length ms" by (simp add: findIndex_Some)
  then have wfi: "wellFormed (m_reactions (ms ! i))" using assms by simp
  define r where "r = (if action = ''add'' then snd (addReaction reaction name (m_reactions (ms ! i)))
      else if action = ''remove'' then snd (removeReaction reaction name (m_reactions (ms ! i)))
      else m_reactions (ms ! i))"
  have wfr: "wellFormed r"
    unfolding r_def using wfi addReaction_wellFormed removeReaction_wellFormed by simp
  have res: "snd (updateMessageReactions messageId reaction name action ms)
           = ms[i := (ms ! i)\<lparr>m_reactions := r\<rparr>]"
    using Some by (simp add: updateMessageReactions_def r_def Let_def split_beta)
  have "set (ms[i := (ms ! i)\<lparr>m_reactions := r\<rparr>]) \<subseteq> insert ((ms ! i)\<lparr>m_reactions := r\<rparr>) (set ms)"
    by (rule set_update_subset_insert)
  with assms wfr show ?thesis unfolding res by auto
qed

lemma applyCalls_wellFormed:
  "\<forall>m \<in> set ms. wellFormed (m_reactions m) \<Longrightarrow>
   \<forall>m \<in> set (applyCalls calls ms). wellFormed (m_reactions m)"
proof (induction calls arbitrary: ms)
  case Nil then show ?case by simp
next
  case (Cons c calls)
  obtain messageId reaction name action where c: "c = (messageId, reaction, name, action)"
    by (cases c)
  from Cons.prems have "\<forall>m \<in> set (snd (updateMessageReactions messageId reaction name action ms)).
           wellFormed (m_reactions m)" by (rule updateMessageReactions_wellFormed)
  from Cons.IH [OF this] c show ?case by simp
qed

text \<open>
  The part of the one-reaction rule that holds for every run. Start from a history whose
  reactions objects are well formed and apply any sequence of calls of
  \<^verbatim>\<open>updateMessageReactions\<close>, with any message ids, symbols, users and actions, also
  calls that throw. In the resulting history every reactions object is well formed and
  every user is held by at most one symbol. Appending a message with the empty reactions
  object, as the chat handler does, keeps the history well formed. An \<^verbatim>\<open>add\<close> always
  takes the user out of every other symbol's array, the entry being deleted when the array
  became empty; unless it throws, it returns true and leaves the user held by exactly the
  new symbol. It throws only for a symbol that is a name inherited from
  \<^verbatim>\<open>Object.prototype\<close>, after the removal.
\<close>

lemma reactions_invariant:
  assumes "\<forall>m \<in> set ms. wellFormed (m_reactions m)"
  shows "(\<forall>m \<in> set (applyCalls calls ms).
            wellFormed (m_reactions m) \<and> (\<forall>u. length (holders u (m_reactions m)) \<le> 1))
       \<and> (\<forall>m \<in> set (fst (addMessageToHistory genId now (messageData\<lparr>m_reactions := []\<rparr>) ms)).
            wellFormed (m_reactions m))
       \<and> (\<forall>m \<in> set ms. \<forall>reaction u.
            (fst (addReaction reaction u (m_reactions m)) = Throws \<longrightarrow>
               reaction \<in> set protoKeys)
            \<and> (fst (addReaction reaction u (m_reactions m)) \<noteq> Throws \<longrightarrow>
                 fst (addReaction reaction u (m_reactions m)) = Returns True
                 \<and> holders u (snd (addReaction reaction u (m_reactions m))) = [reaction])
            \<and> (\<forall>k. k \<noteq> reaction \<longrightarrow>
                  map_of (snd (addReaction reaction u (m_reactions m))) k =
                    (case map_of (m_reactions m) k of
                       None \<Rightarrow> None
                     | Some users \<Rightarrow>
                         if remove1 u users = [] then None else Some (remove1 u users))))"
proof -
  have A: "\<forall>m \<in> set (applyCalls calls ms).
            wellFormed (m_reactions m) \<and> (\<forall>u. length (holders u (m_reactions m)) \<le> 1)"
  proof (intro ballI conjI allI)
    fix m assume "m \<in> set (applyCalls calls ms)"
    with applyCalls_wellFormed [OF assms] show wf: "wellFormed (m_reactions m)" by blast
    fix u show "length (holders u (m_reactions m)) \<le> 1"
      using wf holders_le1 [of "m_reactions m" u] by (simp add: wellFormed_def)
  qed
  have "wellFormed (m_reactions (messageData\<lparr>m_reactions := []\<rparr>))"
    by (simp add: wellFormed_def)
  from addMessageToHistory_wellFormed [OF assms this]
  have B: "\<forall>m \<in> set (fst (addMessageToHistory genId now (messageData\<lparr>m_reactions := []\<rparr>) ms)).
            wellFormed (m_reactions m)" .
  have C: "\<forall>m \<in> set ms. \<forall>reaction u.
            (fst (addReaction reaction u (m_reactions m)) = Throws \<longrightarrow>
               reaction \<in> set protoKeys)
            \<and> (fst (addReaction reaction u (m_reactions m)) \<noteq> Throws \<longrightarrow>
                 fst (addReaction reaction u (m_reactions m)) = Returns True
                 \<and> holders u (snd (addReaction reaction u (m_reactions m))) = [reaction])
            \<and> (\<forall>k. k \<noteq> reaction \<longrightarrow>
                  map_of (snd (addReaction reaction u (m_reactions m))) k =
                    (case map_of (m_reactions m) k of
                       None \<Rightarrow> None
                     | Some users \<Rightarrow>
                         if remove1 u users = [] then None else Some (remove1 u users)))"
  proof (intro ballI allI)
    fix m and reaction u :: string
    assume "m \<in> set ms"
    with assms have wf: "wellFormed (m_reactions m)" by blast
    then have d: "distinct (map fst (m_reactions m))" by (simp add: wellFormed_def)
    show "(fst (addReaction reaction u (m_reactions m)) = Throws \<longrightarrow>
               reaction \<in> set protoKeys)
            \<and> (fst (addReaction reaction u (m_reactions m)) \<noteq> Throws \<longrightarrow>
                 fst (addReaction reaction u (m_reactions m)) = Returns True
                 \<and> holders u (snd (addReaction reaction u (m_reactions m))) = [reaction])
            \<and> (\<forall>k. k \<noteq> reaction \<longrightarrow>
                  map_of (snd (addReaction reaction u (m_reactions m))) k =
                    (case map_of (m_reactions m) k of
                       None \<Rightarrow> None
                     | Some users \<Rightarrow>
                         if remove1 u users = [] then None else Some (remove1 u users)))"
      using addReaction_result [OF wf, of reaction u]
      by (simp only: withoutUser_map_of [OF d])
  qed
  show ?thesis by (intro conjI) (rule A, rule B, rule C)
qed

lemma reactions_invariant_example:
  "wellFormed (m_reactions (textMessage ''m1'' 0))
   \<and> applyCalls [(''m1'', ''up'', ''bob'', ''add''), (''m1'', ''heart'', ''bob'', ''add'')]
         [textMessage ''m1'' 0]
       = [(textMessage ''m1'' 0)\<lparr>m_reactions := [(''heart'', [''bob''])]\<rparr>]
   \<and> length (holders ''bob'' [(''heart'', [''bob''])]) \<le> 1
   \<and> holders ''bob'' (snd (addReaction ''heart'' ''bob'' [(''up'', [''bob''])])) = [''heart'']
   \<and> addReaction ''constructor'' ''bob'' [(''up'', [''bob''])] = (Throws, [])"
proof -
  have h: "\<forall>m \<in> set [(textMessage ''m1'' 0)\<lparr>m_reactions := [(''up'', [''bob''])]\<rparr>].
             wellFormed (m_reactions m)"
    by (simp add: wellFormed_def)
  have e: "applyCalls [(''m1'', ''heart'', ''bob'', ''add'')]
             [(textMessage ''m1'' 0)\<lparr>m_reactions := [(''up'', [''bob''])]\<rparr>]
           = [(textMessage ''m1'' 0)\<lparr>m_reactions := [(''heart'', [''bob''])]\<rparr>]"
    by (simp add: updateMessageReactions_def addReaction_def getProperty_def protoKeys_def
          indexOf_def splice1_def textMessage_def)
  have e2: "applyCalls [(''m1'', ''up'', ''bob'', ''add''), (''m1'', ''heart'', ''bob'', ''add'')]
         [textMessage ''m1'' 0]
       = [(textMessage ''m1'' 0)\<lparr>m_reactions := [(''heart'', [''bob''])]\<rparr>]"
    by (simp add: updateMessageReactions_def addReaction_def getProperty_def protoKeys_def
          indexOf_def splice1_def textMessage_def)
  have nt: "fst (addReaction ''heart'' ''bob'' [(''up'', [''bob''])]) \<noteq> Throws"
    by (simp add: addReaction_def getProperty_def protoKeys_def indexOf_def splice1_def)
  have c: "addReaction ''constructor'' ''bob'' [(''up'', [''bob''])] = (Throws, [])"
    by (simp add: addReaction_def getProperty_def protoKeys_def indexOf_def splice1_def)
  from reactions_invariant [OF h, of "[(''m1'', ''heart'', ''bob'', ''add'')]"] e nt
  have "length (holders ''bob'' [(''heart'', [''bob''])]) \<le> 1
      \<and> holders ''bob'' (snd (addReaction ''heart'' ''bob'' [(''up'', [''bob''])])) = [''heart'']"
    by simp
  then show ?thesis using e2 c by (simp add: wellFormed_def textMessage_def)
qed

text \<open>
  Claim C1. The claim asks that an \<^verbatim>\<open>add\<close> of a second symbol takes the user out of
  the symbol held and then inserts them into the new one. With the symbol
  \<^verbatim>\<open>constructor\<close>, a name every object inherits from \<^verbatim>\<open>Object.prototype\<close>, the
  insertion does not happen: bob holds \<open>up\<close> on message \<open>m1\<close>; the call takes him out
  of \<open>up\<close> and deletes that entry, finds \<^verbatim>\<open>message.reactions['constructor']\<close> truthy,
  so creates no array, and the call of \<^verbatim>\<open>includes\<close> on it throws a
  \<^verbatim>\<open>TypeError\<close>. Bob is left holding no symbol at all; the handler catches the
  exception, keeps the mutated history and broadcasts nothing, so no client learns that
  \<open>up\<close> is gone. Without a reaction held before, the same call throws on the untouched
  message. That no user is ever held by two symbols is true of every run (lemma
  \<open>reactions_invariant\<close>).
\<close>

theorem add_inherited_symbol_not_inserted:
  "updateMessageReactions ''m1'' ''constructor'' ''bob'' ''add''
     [(textMessage ''m1'' 0)\<lparr>m_reactions := [(''up'', [''bob''])]\<rparr>]
   = (Throws, [(textMessage ''m1'' 0)\<lparr>m_reactions := []\<rparr>])
   \<and> holders ''bob'' (m_reactions (hd (snd
         (updateMessageReactions ''m1'' ''constructor'' ''bob'' ''add''
            [(textMessage ''m1'' 0)\<lparr>m_reactions := [(''up'', [''bob''])]\<rparr>])))) = []
   \<and> on_message_reaction
         (initialState\<lparr>recentMessages :=
            [(textMessage ''m1'' 0)\<lparr>m_reactions := [(''up'', [''bob''])]\<rparr>]\<rparr>)
         ''s2'' ''m1'' ''constructor'' ''bob'' ''add''
     = (initialState\<lparr>recentMessages := [(textMessage ''m1'' 0)\<lparr>m_reactions := []\<rparr>]\<rparr>, [])
   \<and> updateMessageReactions ''m1'' ''constructor'' ''bob'' ''add'' [textMessage ''m1'' 0]
     = (Throws, [textMessage ''m1'' 0])"
proof -
  have a: "updateMessageReactions ''m1'' ''constructor'' ''bob'' ''add''
     [(textMessage ''m1'' 0)\<lparr>m_reactions := [(''up'', [''bob''])]\<rparr>]
   = (Throws, [(textMessage ''m1'' 0)\<lparr>m_reactions := []\<rparr>])"
    by (simp add: updateMessageReactions_def addReaction_def getProperty_def protoKeys_def
          indexOf_def splice1_def textMessage_def)
  have b: "holders ''bob'' (m_reactions (hd [(textMessage ''m1'' 0)\<lparr>m_reactions := []\<rparr>])) = []"
    by (simp add: holders_def)
  have c: "on_message_reaction
         (initialState\<lparr>recentMessages :=
            [(textMessage ''m1'' 0)\<lparr>m_reactions := [(''up'', [''bob''])]\<rparr>]\<rparr>)
         ''s2'' ''m1'' ''constructor'' ''bob'' ''add''
     = (initialState\<lparr>recentMessages := [(textMessage ''m1'' 0)\<lparr>m_reactions := []\<rparr>]\<rparr>, [])"
    by (simp add: on_message_reaction_def a initialState_def)
  have d: "updateMessageReactions ''m1'' ''constructor'' ''bob'' ''add'' [textMessage ''m1'' 0]
     = (Throws, [textMessage ''m1'' 0])"
    by (simp add: updateMessageReactions_def addReaction_def getProperty_def protoKeys_def
          textMessage_def)
  from a b c d show ?thesis by simp
qed

section \<open>Reactions: unknown message, unknown action\<close>

text \<open>
  Claim C8. When no message of the history has the given id, whatever the symbol, the
  username and the action are, \<^verbatim>\<open>updateMessageReactions\<close> returns false and leaves
  the history as it is, and the \<^verbatim>\<open>'message reaction'\<close> handler leaves the whole state
  as it is and emits nothing to any connection.
\<close>

theorem unknown_message_noop:
  assumes "messageId \<notin> m_id ` set (recentMessages st)"
  shows "updateMessageReactions messageId reaction name action (recentMessages st)
           = (Returns False, recentMessages st)
       \<and> on_message_reaction st sid messageId reaction name action = (st, [])"
proof -
  from assms have "findIndex (\<lambda>msg. m_id msg = messageId) (recentMessages st) = None"
    by (auto simp: findIndex_None)
  then have u: "updateMessageReactions messageId reaction name action (recentMessages st)
       = (Returns False, recentMessages st)"
    by (simp add: updateMessageReactions_def)
  then show ?thesis by (simp add: on_message_reaction_def)
qed

theorem unknown_message_noop_witness:
  "''m2'' \<notin> m_id ` set (recentMessages (initialState\<lparr>recentMessages := [textMessage ''m1'' 0]\<rparr>))
   \<and> on_message_reaction (initialState\<lparr>recentMessages := [textMessage ''m1'' 0]\<rparr>) ''s1''
         ''m2'' ''up'' ''bob'' ''add''
       = (initialState\<lparr>recentMessages := [textMessage ''m1'' 0]\<rparr>, [])"
proof -
  have h: "''m2'' \<notin> m_id ` set (recentMessages (initialState\<lparr>recentMessages := [textMessage ''m1'' 0]\<rparr>))"
    by (simp add: textMessage_def)
  from unknown_message_noop [OF h] h show ?thesis by simp
qed

text \<open>
  Claim C10. When a message of the history has the given id and the action is neither
  \<^verbatim>\<open>add\<close> nor \<^verbatim>\<open>remove\<close>, \<^verbatim>\<open>updateMessageReactions\<close> returns true and leaves
  the history as it is; the handler, given four non-empty fields, leaves the state as it
  is and broadcasts the event with the unknown action to all connections.
\<close>

theorem unknown_action_accepted:
  assumes "messageId \<in> m_id ` set (recentMessages st)"
      and "action \<noteq> ''add''" and "action \<noteq> ''remove''"
  shows "updateMessageReactions messageId reaction name action (recentMessages st)
           = (Returns True, recentMessages st)
       \<and> (messageId \<noteq> [] \<and> reaction \<noteq> [] \<and> name \<noteq> [] \<and> action \<noteq> [] \<longrightarrow>
            on_message_reaction st sid messageId reaction name action
              = (st, [(ToAll, MessageReaction messageId reaction name action)]))"
proof -
  from assms(1) obtain i where i: "findIndex (\<lambda>msg. m_id msg = messageId) (recentMessages st) = Some i"
    by (cases "findIndex (\<lambda>msg. m_id msg = messageId) (recentMessages st)")
       (auto simp: findIndex_None)
  have u: "updateMessageReactions messageId reaction name action (recentMessages st)
           = (Returns True, recentMessages st)"
    using i assms(2,3) by (simp add: updateMessageReactions_def)
  then show ?thesis by (simp add: on_message_reaction_def)
qed

theorem unknown_action_accepted_witness:
  "on_message_reaction (initialState\<lparr>recentMessages := [textMessage ''m1'' 0]\<rparr>) ''s1''
         ''m1'' ''up'' ''bob'' ''toggle''
       = (initialState\<lparr>recentMessages := [textMessage ''m1'' 0]\<rparr>,
          [(ToAll, MessageReaction ''m1'' ''up'' ''bob'' ''toggle'')])"
proof -
  have h: "''m1'' \<in> m_id ` set (recentMessages (initialState\<lparr>recentMessages := [textMessage ''m1'' 0]\<rparr>))"
    by (simp add: textMessage_def)
  from unknown_action_accepted [OF h, of "''toggle''" "''up''" "''bob''" "''s1''"]
  show ?thesis by simp
qed

section \<open>Message history: pruning, capacity, snapshot\<close>

lemma deleteFirstWithId_filter:
  "distinct (map m_id ms) \<Longrightarrow> deleteFirstWithId ms i = filter (\<lambda>m. m_id m \<noteq> i) ms"
proof (induction ms)
  case Nil then show ?case by (simp add: deleteFirstWithId_def)
next
  case (Cons m ms)
  then have IH: "deleteFirstWithId ms i = filter (\<lambda>m. m_id m \<noteq> i) ms"
    and nm: "m_id m \<notin> m_id ` set ms" by simp_all
  show ?case
  proof (cases "m_id m = i")
    case True
    with nm have "\<forall>x \<in> set ms. m_id x \<noteq> i" by blast
    then have "filter (\<lambda>m. m_id m \<noteq> i) ms = ms" by (simp add: filter_id_conv)
    with True show ?thesis by (simp add: deleteFirstWithId_def splice1_def)
  next
    case False
    with IH show ?thesis
      by (cases "findIndex (\<lambda>m. m_id m = i) ms")
         (simp_all add: deleteFirstWithId_def splice1_def)
  qed
qed

lemma foldl_deleteFirstWithId:
  "distinct (map m_id ms) \<Longrightarrow>
   foldl deleteFirstWithId ms ids = filter (\<lambda>m. m_id m \<notin> set ids) ms"
proof (induction ids arbitrary: ms)
  case Nil then show ?case by simp
next
  case (Cons i ids)
  have d: "distinct (map m_id (filter (\<lambda>m. m_id m \<noteq> i) ms))"
    using Cons.prems by (rule distinct_map_filter)
  show ?case
    using Cons.IH [OF d] Cons.prems
    by (simp add: deleteFirstWithId_filter conj_commute)
qed

lemma pruned_is_filter:
  assumes "distinct (map m_id ms)"
  shows "fst (pruneExpiredMessages now ms) = filter (\<lambda>m. \<not> expired now m) ms"
proof (cases "filter (expired now) ms = []")
  case True
  then have "filter (\<lambda>m. \<not> expired now m) ms = ms"
    by (auto simp: filter_empty_conv filter_id_conv)
  with True show ?thesis by (simp add: pruneExpiredMessages_def)
next
  case False
  have "filter (\<lambda>m. m_id m \<notin> m_id ` {x \<in> set ms. expired now x}) ms
          = filter (\<lambda>m. \<not> expired now m) ms"
  proof (rule filter_cong [OF refl])
    fix m assume m: "m \<in> set ms"
    from assms have "inj_on m_id (set ms)" by (simp add: distinct_map)
    with m show "(m_id m \<notin> m_id ` {x \<in> set ms. expired now x}) = (\<not> expired now m)"
      by (auto dest: inj_onD)
  qed
  with False assms show ?thesis
    by (simp add: pruneExpiredMessages_def foldl_deleteFirstWithId)
qed

lemma prune_emits:
  "snd (pruneExpiredMessages now ms) =
     (if \<exists>m \<in> set ms. expired now m
      then [(ToAll, MessageDeleted (map m_id (filter (expired now) ms)))] else [])"
  by (auto simp: pruneExpiredMessages_def filter_empty_conv Let_def)

lemma within24h_not_expired: "n1 \<le> n2 \<Longrightarrow> within24h n2 m \<Longrightarrow> \<not> expired n1 m"
  by (auto simp: within24h_def expired_def split: option.splits)

lemma snapshot_filter:
  assumes "distinct (map m_id ms)" "n1 \<le> n2"
  shows "filter (within24h n2) (fst (pruneExpiredMessages n1 ms)) = filter (within24h n2) ms"
proof -
  have "filter (within24h n2) (filter (\<lambda>m. \<not> expired n1 m) ms) = filter (within24h n2) ms"
    using within24h_not_expired [OF assms(2)] by (auto intro: filter_cong)
  then show ?thesis by (simp add: pruned_is_filter [OF assms(1)])
qed


lemma addMessageToHistory_eq:
  "addMessageToHistory genId now messageData ms =
     (let pruned = fst (pruneExpiredMessages now
                     (ms @ [if m_id messageData = [] then messageData\<lparr>m_id := genId\<rparr>
                            else messageData]))
      in (drop (length pruned - 200) pruned,
          snd (pruneExpiredMessages now
                 (ms @ [if m_id messageData = [] then messageData\<lparr>m_id := genId\<rparr>
                        else messageData]))))"
  by (simp add: addMessageToHistory_def MAX_MESSAGES_def Let_def split_beta)

text \<open>
  Claim C2. \<open>pushed\<close> is the history with the new message appended. The only event
  \<^verbatim>\<open>addMessageToHistory\<close> can emit is the one of the TTL pruning: a single
  \<^verbatim>\<open>'message deleted'\<close> batch with the ids of all expired messages, and nothing when
  no message is expired. The history kept is the pruned one without its oldest messages
  beyond 200. So when nothing is expired, the append beyond the capacity drops the oldest
  messages and emits nothing; and with unique ids no message dropped for capacity has its id
  in a deletion batch.
\<close>

theorem capacity_eviction_silent:
  assumes p: "pushed = ms @ [if m_id messageData = [] then messageData\<lparr>m_id := genId\<rparr>
                             else messageData]"
  shows "snd (addMessageToHistory genId now messageData ms) =
           (if \<exists>m \<in> set pushed. expired now m
            then [(ToAll, MessageDeleted (map m_id (filter (expired now) pushed)))] else [])
       \<and> fst (addMessageToHistory genId now messageData ms) =
           drop (length (fst (pruneExpiredMessages now pushed)) - 200)
             (fst (pruneExpiredMessages now pushed))
       \<and> ((\<forall>m \<in> set pushed. \<not> expired now m) \<longrightarrow>
            addMessageToHistory genId now messageData ms = (drop (length pushed - 200) pushed, []))
       \<and> (distinct (map m_id pushed) \<longrightarrow>
            fst (addMessageToHistory genId now messageData ms) =
              drop (length (filter (\<lambda>m. \<not> expired now m) pushed) - 200)
                (filter (\<lambda>m. \<not> expired now m) pushed)
            \<and> (\<forall>m \<in> set (filter (\<lambda>m. \<not> expired now m) pushed).
                  m_id m \<notin> set (map m_id (filter (expired now) pushed))))"
proof (intro conjI impI)
  show "snd (addMessageToHistory genId now messageData ms) =
           (if \<exists>m \<in> set pushed. expired now m
            then [(ToAll, MessageDeleted (map m_id (filter (expired now) pushed)))] else [])"
    unfolding p addMessageToHistory_eq by (simp add: Let_def prune_emits)
  show "fst (addMessageToHistory genId now messageData ms) =
           drop (length (fst (pruneExpiredMessages now pushed)) - 200)
             (fst (pruneExpiredMessages now pushed))"
    unfolding p addMessageToHistory_eq by (simp add: Let_def)
next
  assume none: "\<forall>m \<in> set pushed. \<not> expired now m"
  then have "filter (expired now) pushed = []" by (simp add: filter_empty_conv)
  then have "pruneExpiredMessages now pushed = (pushed, [])"
    by (simp add: pruneExpiredMessages_def)
  then show "addMessageToHistory genId now messageData ms = (drop (length pushed - 200) pushed, [])"
    unfolding addMessageToHistory_eq p [symmetric] by (simp add: Let_def)
next
  assume d: "distinct (map m_id pushed)"
  show "fst (addMessageToHistory genId now messageData ms) =
              drop (length (filter (\<lambda>m. \<not> expired now m) pushed) - 200)
                (filter (\<lambda>m. \<not> expired now m) pushed)"
    unfolding addMessageToHistory_eq p [symmetric]
    by (simp add: Let_def pruned_is_filter [OF d])
  from d have inj: "inj_on m_id (set pushed)" by (simp add: distinct_map)
  show "\<forall>m \<in> set (filter (\<lambda>m. \<not> expired now m) pushed).
                  m_id m \<notin> set (map m_id (filter (expired now) pushed))"
    using inj by (auto dest: inj_onD)
qed

theorem capacity_eviction_silent_witness:
  "addMessageToHistory ''g'' 1000 (textMessage ''new'' 1000)
     (map (\<lambda>i. textMessage (decimal i) 0) [0..<200])
   = (map (\<lambda>i. textMessage (decimal i) 0) [1..<200] @ [textMessage ''new'' 1000], [])"
proof -
  have ne: "\<forall>m \<in> set (map (\<lambda>i. textMessage (decimal i) 0) [0..<200] @ [textMessage ''new'' 1000]).
              \<not> expired 1000 m"
    by (auto simp: expired_def textMessage_def MESSAGE_TTL_MS_def)
  have "m_id (textMessage ''new'' 1000) \<noteq> []" by (simp add: textMessage_def)
  with capacity_eviction_silent [OF refl, of "''g''" 1000 "textMessage ''new'' 1000"
      "map (\<lambda>i. textMessage (decimal i) 0) [0..<200]"] ne
  have "addMessageToHistory ''g'' 1000 (textMessage ''new'' 1000)
          (map (\<lambda>i. textMessage (decimal i) 0) [0..<200])
        = (drop 1 (map (\<lambda>i. textMessage (decimal i) 0) [0..<200] @ [textMessage ''new'' 1000]), [])"
    by simp
  then show ?thesis by (simp add: drop_map drop_upt del: upt_Suc)
qed

text \<open>
  Claim C3. With unique message ids and a clock that does not run backwards between the
  pruning and the filter, the \<^verbatim>\<open>'recent messages'\<close> event sent to the new connection
  (on connection in \<^verbatim>\<open>part_001\<close>, at the end of a successful login in
  \<^verbatim>\<open>server.js\<close>) carries exactly the stored messages whose timestamp is finite and at
  most 24 hours old, in the order of the history, whatever the history held before, also
  messages that no sweep has removed yet.
\<close>

theorem snapshot_read_time_filter:
  assumes d: "distinct (map m_id (recentMessages st))" and le: "nowPrune \<le> nowSnapshot"
  shows "snd (on_connection_p1 st sid nowPrune nowSnapshot) =
           snd (pruneExpiredMessages nowPrune (recentMessages st)) @
           [(ToSocket sid, RecentMessages (filter (within24h nowSnapshot) (recentMessages st)))]
       \<and> (name \<noteq> [] \<and> password \<noteq> [] \<and> map_of (registeredUsers st) name = Some user
            \<and> passwordHash user = hashPassword password \<longrightarrow>
          last (snd (on_login hashPassword st sid name password nowJoin nowPrune nowSnapshot)) =
            (ToSocket sid, RecentMessages (filter (within24h nowSnapshot) (recentMessages st))))"
  using snapshot_filter [OF d le]
  by (simp add: on_connection_p1_def on_login_def Let_def split_beta)

theorem snapshot_read_time_filter_witness:
  "on_connection_p1
     (initialState\<lparr>recentMessages := [textMessage ''old'' 0, textMessage ''new'' 90000000]\<rparr>)
     ''s1'' 100000000 100000000
   = (initialState\<lparr>recentMessages := [textMessage ''new'' 90000000]\<rparr>,
      [(ToAll, MessageDeleted [''old'']),
       (ToSocket ''s1'', RecentMessages [textMessage ''new'' 90000000])])"
proof -
  let ?st = "initialState\<lparr>recentMessages := [textMessage ''old'' 0, textMessage ''new'' 90000000]\<rparr>"
  have d: "distinct (map m_id (recentMessages ?st))" by (simp add: textMessage_def)
  have p: "pruneExpiredMessages 100000000 (recentMessages ?st)
             = ([textMessage ''new'' 90000000], [(ToAll, MessageDeleted [''old''])])"
    by (simp add: pruneExpiredMessages_def expired_def textMessage_def MESSAGE_TTL_MS_def
          deleteFirstWithId_def splice1_def)
  have f: "filter (within24h 100000000) (recentMessages ?st) = [textMessage ''new'' 90000000]"
    by (simp add: within24h_def textMessage_def MESSAGE_TTL_MS_def)
  from snapshot_read_time_filter [OF d order_refl, of "''s1''"] p f
  have "snd (on_connection_p1 ?st ''s1'' 100000000 100000000)
          = [(ToAll, MessageDeleted [''old'']),
             (ToSocket ''s1'', RecentMessages [textMessage ''new'' 90000000])]"
    by simp
  moreover have "fst (on_connection_p1 ?st ''s1'' 100000000 100000000)
          = initialState\<lparr>recentMessages := [textMessage ''new'' 90000000]\<rparr>"
    using p by (simp add: on_connection_p1_def)
  ultimately show ?thesis by (simp add: prod_eq_iff)
qed

section \<open>Chat messages: validation of the body\<close>

lemma trim_Nil: "trim [] = []"
  by (simp add: trim_def)

lemma sanitizeMessage_eq: "sanitizeMessage message = take 500 (trim message)"
  by (simp add: sanitizeMessage_def trim_Nil)

lemma sanitizeMessage_empty: "sanitizeMessage message = [] \<longleftrightarrow> trim message = []"
  by (simp add: sanitizeMessage_eq)

text \<open>
  Claim C9, as amended. For a \<^verbatim>\<open>"chat message"\<close> event that passes the rate limiter
  (which has already counted it): when the body is empty after trimming, the event is
  dropped without any event to any connection, also no error event, and nothing but the
  rate-limit window changes; when it is not, the event is accepted whatever the length of
  the body: the message handed to \<^verbatim>\<open>addMessageToHistory\<close> and broadcast to all carries
  the first 500 characters of the trimmed body, which is the trimmed body itself when that
  has at most 500 characters, and is never empty nor longer than 500.
\<close>

theorem chat_message_validation:
  assumes rl: "checkRateLimit nowLimit sid (messageLimits st) = (True, limits)"
  shows "(trim dataMessage = [] \<longrightarrow>
            on_chat_message st sid dataMessage dataReplyTo nowLimit newId genId nowStamp nowPrune
              = (st\<lparr>messageLimits := limits\<rparr>, []))
       \<and> (trim dataMessage \<noteq> [] \<longrightarrow>
            (\<exists>msg. m_message msg = take 500 (trim dataMessage) \<and> m_message msg \<noteq> []
                \<and> length (m_message msg) \<le> 500
                \<and> (length (trim dataMessage) \<le> 500 \<longrightarrow> m_message msg = trim dataMessage)
                \<and> m_id msg = newId \<and> m_timestamp msg = Some nowStamp \<and> m_reactions msg = []
                \<and> on_chat_message st sid dataMessage dataReplyTo nowLimit newId genId nowStamp
                      nowPrune
                    = (st\<lparr>messageLimits := limits,
                          recentMessages :=
                            fst (addMessageToHistory genId nowPrune msg (recentMessages st))\<rparr>,
                       snd (addMessageToHistory genId nowPrune msg (recentMessages st))
                       @ [(ToAll, ChatMessage (if m_id msg = [] then msg\<lparr>m_id := genId\<rparr>
                                               else msg))])))"
proof (intro conjI impI)
  assume "trim dataMessage = []"
  then show "on_chat_message st sid dataMessage dataReplyTo nowLimit newId genId nowStamp nowPrune
              = (st\<lparr>messageLimits := limits\<rparr>, [])"
    using rl by (simp add: on_chat_message_def sanitizeMessage_eq)
next
  assume ne: "trim dataMessage \<noteq> []"
  let ?userData = "map_of (connectedUsers st) sid"
  let ?msg = "\<lparr>m_id = newId,
      m_username = (case ?userData of None \<Rightarrow> ''Unknown'' | Some u \<Rightarrow> u_username u),
      m_message = sanitizeMessage dataMessage,
      m_replyTo = (case dataReplyTo of None \<Rightarrow> None
                   | Some r \<Rightarrow> if r = [] then None else Some r),
      m_timestamp = Some nowStamp, m_reactions = [],
      m_avatar = (case ?userData of None \<Rightarrow> Some defaultAvatar | Some u \<Rightarrow> u_avatar u)\<rparr>"
  have "on_chat_message st sid dataMessage dataReplyTo nowLimit newId genId nowStamp nowPrune
          = (st\<lparr>messageLimits := limits,
                recentMessages := fst (addMessageToHistory genId nowPrune ?msg (recentMessages st))\<rparr>,
             snd (addMessageToHistory genId nowPrune ?msg (recentMessages st))
             @ [(ToAll, ChatMessage (if m_id ?msg = [] then ?msg\<lparr>m_id := genId\<rparr> else ?msg))])"
    using rl ne by (simp add: on_chat_message_def sanitizeMessage_empty Let_def split_beta)
  moreover have "m_message ?msg = take 500 (trim dataMessage)" by (simp add: sanitizeMessage_eq)
  moreover have "m_message ?msg \<noteq> []" using ne by (simp add: sanitizeMessage_eq)
  moreover have "length (m_message ?msg) \<le> 500" by (simp add: sanitizeMessage_eq)
  moreover have "length (trim dataMessage) \<le> 500 \<longrightarrow> m_message ?msg = trim dataMessage"
    by (simp add: sanitizeMessage_eq)
  moreover have "m_id ?msg = newId \<and> m_timestamp ?msg = Some nowStamp \<and> m_reactions ?msg = []"
    by simp
  ultimately show "\<exists>msg. m_message msg = take 500 (trim dataMessage) \<and> m_message msg \<noteq> []
                \<and> length (m_message msg) \<le> 500
                \<and> (length (trim dataMessage) \<le> 500 \<longrightarrow> m_message msg = trim dataMessage)
                \<and> m_id msg = newId \<and> m_timestamp msg = Some nowStamp \<and> m_reactions msg = []
                \<and> on_chat_message st sid dataMessage dataReplyTo nowLimit newId genId nowStamp
                      nowPrune
                    = (st\<lparr>messageLimits := limits,
                          recentMessages :=
                            fst (addMessageToHistory genId nowPrune msg (recentMessages st))\<rparr>,
                       snd (addMessageToHistory genId nowPrune msg (recentMessages st))
                       @ [(ToAll, ChatMessage (if m_id msg = [] then msg\<lparr>m_id := genId\<rparr>
                                               else msg))])"
    by (intro exI [of _ ?msg]) blast
qed

lemma trim_replicate_a: "trim (replicate n CHR ''a'') = replicate n CHR ''a''"
  by (simp add: trim_def isJsSpace_def)

theorem chat_message_validation_counterexample:
  "on_chat_message initialState ''s1'' ''   '' None 1000 ''id1'' ''id2'' 1000 1000
     = (initialState\<lparr>messageLimits := [(''s1'', \<lparr>l_count = 1, l_resetTime = 61000\<rparr>)]\<rparr>, [])
   \<and> on_chat_message initialState ''s1'' (replicate 501 CHR ''a'') None 1000 ''id1'' ''id2''
       1000 1000
     = (initialState\<lparr>messageLimits := [(''s1'', \<lparr>l_count = 1, l_resetTime = 61000\<rparr>)],
          recentMessages :=
            [\<lparr>m_id = ''id1'', m_username = ''Unknown'', m_message = replicate 500 CHR ''a'',
              m_replyTo = None, m_timestamp = Some 1000, m_reactions = [],
              m_avatar = Some defaultAvatar\<rparr>]\<rparr>,
        [(ToAll, ChatMessage
            \<lparr>m_id = ''id1'', m_username = ''Unknown'', m_message = replicate 500 CHR ''a'',
             m_replyTo = None, m_timestamp = Some 1000, m_reactions = [],
             m_avatar = Some defaultAvatar\<rparr>)])"
proof -
  have rl: "checkRateLimit 1000 ''s1'' (messageLimits initialState)
              = (True, [(''s1'', \<lparr>l_count = 1, l_resetTime = 61000\<rparr>)])"
    by (simp add: checkRateLimit_def initialState_def RATE_LIMIT_WINDOW_def)
  have a: "on_chat_message initialState ''s1'' ''   '' None 1000 ''id1'' ''id2'' 1000 1000
     = (initialState\<lparr>messageLimits := [(''s1'', \<lparr>l_count = 1, l_resetTime = 61000\<rparr>)]\<rparr>, [])"
    using rl by (simp add: on_chat_message_def sanitizeMessage_def trim_def isJsSpace_def)
  have nonempty: "replicate 501 CHR ''a'' \<noteq> []" by simp
  have s: "sanitizeMessage (replicate 501 CHR ''a'') = replicate 500 CHR ''a''"
    by (simp add: sanitizeMessage_eq trim_replicate_a)
  have r: "replicate 500 CHR ''a'' \<noteq> []" by simp
  have b: "on_chat_message initialState ''s1'' (replicate 501 CHR ''a'') None 1000 ''id1'' ''id2''
       1000 1000
     = (initialState\<lparr>messageLimits := [(''s1'', \<lparr>l_count = 1, l_resetTime = 61000\<rparr>)],
          recentMessages :=
            [\<lparr>m_id = ''id1'', m_username = ''Unknown'', m_message = replicate 500 CHR ''a'',
              m_replyTo = None, m_timestamp = Some 1000, m_reactions = [],
              m_avatar = Some defaultAvatar\<rparr>]\<rparr>,
        [(ToAll, ChatMessage
            \<lparr>m_id = ''id1'', m_username = ''Unknown'', m_message = replicate 500 CHR ''a'',
             m_replyTo = None, m_timestamp = Some 1000, m_reactions = [],
             m_avatar = Some defaultAvatar\<rparr>)])"
    using rl r unfolding on_chat_message_def s
    by (simp add: initialState_def addMessageToHistory_def pruneExpiredMessages_def expired_def
          MESSAGE_TTL_MS_def MAX_MESSAGES_def Let_def)
  from a b show ?thesis by simp
qed

theorem chat_message_validation_witness:
  "on_chat_message initialState ''s1'' '' hi  '' None 1000 ''id1'' ''id2'' 1000 1000
     = (initialState\<lparr>messageLimits := [(''s1'', \<lparr>l_count = 1, l_resetTime = 61000\<rparr>)],
          recentMessages :=
            [\<lparr>m_id = ''id1'', m_username = ''Unknown'', m_message = ''hi'',
              m_replyTo = None, m_timestamp = Some 1000, m_reactions = [],
              m_avatar = Some defaultAvatar\<rparr>]\<rparr>,
        [(ToAll, ChatMessage
            \<lparr>m_id = ''id1'', m_username = ''Unknown'', m_message = ''hi'',
             m_replyTo = None, m_timestamp = Some 1000, m_reactions = [],
             m_avatar = Some defaultAvatar\<rparr>)])"
proof -
  have rl: "checkRateLimit 1000 ''s1'' (messageLimits initialState)
              = (True, [(''s1'', \<lparr>l_count = 1, l_resetTime = 61000\<rparr>)])"
    by (simp add: checkRateLimit_def initialState_def RATE_LIMIT_WINDOW_def)
  have t: "trim '' hi  '' = ''hi''" by (simp add: trim_def isJsSpace_def)
  from chat_message_validation [OF rl, of "'' hi  ''" None "''id1''" "''id2''" 1000 1000]
  obtain msg where m: "m_message msg = ''hi''" "m_id msg = ''id1''" "m_timestamp msg = Some 1000"
      "m_reactions msg = []"
    and e: "on_chat_message initialState ''s1'' '' hi  '' None 1000 ''id1'' ''id2'' 1000 1000
             = (initialState\<lparr>messageLimits := [(''s1'', \<lparr>l_count = 1, l_resetTime = 61000\<rparr>)],
                  recentMessages :=
                    fst (addMessageToHistory ''id2'' 1000 msg (recentMessages initialState))\<rparr>,
                snd (addMessageToHistory ''id2'' 1000 msg (recentMessages initialState))
                @ [(ToAll, ChatMessage (if m_id msg = [] then msg\<lparr>m_id := ''id2''\<rparr> else msg))])"
    unfolding t by auto
  have "on_chat_message initialState ''s1'' '' hi  '' None 1000 ''id1'' ''id2'' 1000 1000
     = (initialState\<lparr>messageLimits := [(''s1'', \<lparr>l_count = 1, l_resetTime = 61000\<rparr>)],
          recentMessages :=
            [\<lparr>m_id = ''id1'', m_username = ''Unknown'', m_message = ''hi'',
              m_replyTo = None, m_timestamp = Some 1000, m_reactions = [],
              m_avatar = Some defaultAvatar\<rparr>]\<rparr>,
        [(ToAll, ChatMessage
            \<lparr>m_id = ''id1'', m_username = ''Unknown'', m_message = ''hi'',
             m_replyTo = None, m_timestamp = Some 1000, m_reactions = [],
             m_avatar = Some defaultAvatar\<rparr>)])"
    using rl t
    by (simp add: on_chat_message_def sanitizeMessage_def initialState_def addMessageToHistory_def
          pruneExpiredMessages_def expired_def MESSAGE_TTL_MS_def MAX_MESSAGES_def Let_def)
  with e show ?thesis by simp
qed

section \<open>Presence: usernames of connected sessions\<close>

text \<open>
  Claim C5. The claim asks that no two connected sessions ever hold the same username.
  The code lets them: in \<^verbatim>\<open>part_001\<close> bob, joined on \<open>s2\<close>, renames himself to
  alice's name and both sessions are listed as \<open>alice\<close>; a third session asking for
  \<open>alice\<close> while \<open>alice\<close> and \<open>alice_7\<close> are connected, with the random draw 7, is
  given \<open>alice_7\<close>, which is taken; in \<^verbatim>\<open>server.js\<close> a second login of alice is told
  "User already logged in" and is registered all the same.
\<close>

theorem username_uniqueness_fails:
  "getOnlineUsers (connectedUsers (fst (on_username_changed_p1 aliceAndBob ''s2'' ''alice'')))
     = [''alice'', ''alice'']
   \<and> getOnlineUsers (connectedUsers (fst
         (on_user_joined_p1
           (fst (on_user_joined_p1
             (fst (on_user_joined_p1 initialState ''s1'' ''alice'' 0 0 0))
             ''s2'' ''alice_7'' 0 0 0))
           ''s3'' ''alice'' 0 7 0)))
     = [''alice'', ''alice_7'', ''alice_7'']
   \<and> on_login (\<lambda>p. p)
         (fst (on_login (\<lambda>p. p)
                (initialState\<lparr>registeredUsers :=
                   [(''alice'', \<lparr>passwordHash = ''pw'', acc_avatar = ''A''\<rparr>)]\<rparr>)
                ''s1'' ''alice'' ''pw'' 0 0 0))
         ''s2'' ''alice'' ''pw'' 0 0 0
     = (initialState\<lparr>registeredUsers :=
           [(''alice'', \<lparr>passwordHash = ''pw'', acc_avatar = ''A''\<rparr>)],
         connectedUsers :=
           [(''s1'', \<lparr>u_username = ''alice'', u_avatar = Some ''A'', u_socketId = ''s1'',
                      u_joinTime = 0\<rparr>),
            (''s2'', \<lparr>u_username = ''alice'', u_avatar = Some ''A'', u_socketId = ''s2'',
                      u_joinTime = 0\<rparr>)]\<rparr>,
        [(ToSocket ''s2'', LoginError ''User already logged in''),
         (ToSocket ''s2'', LoginSuccess ''alice'' ''A''),
         (ToAll, UserJoined ''alice'' (Some ''A'')), (ToAll, UserCount 2),
         (ToAll, OnlineUsers [(''alice'', ''A''), (''alice'', ''A'')]),
         (ToSocket ''s2'', RecentMessages [])])"
proof -
  have t: "trim ''alice'' = ''alice''" "trim ''alice_7'' = ''alice_7''"
    by (simp_all add: trim_def isJsSpace_def)
  have d: "decimal 7 = ''7''" by (simp add: decimal.simps)
  have a: "getOnlineUsers (connectedUsers (fst (on_username_changed_p1 aliceAndBob ''s2'' ''alice'')))
     = [''alice'', ''alice'']"
    by (simp add: on_username_changed_p1_def sanitizeUsername_def t aliceAndBob_def
          initialState_def getOnlineUsers_def Let_def)
  have b: "getOnlineUsers (connectedUsers (fst
         (on_user_joined_p1
           (fst (on_user_joined_p1
             (fst (on_user_joined_p1 initialState ''s1'' ''alice'' 0 0 0))
             ''s2'' ''alice_7'' 0 0 0))
           ''s3'' ''alice'' 0 7 0)))
     = [''alice'', ''alice_7'', ''alice_7'']"
    by (simp add: on_user_joined_p1_def sanitizeUsername_def t d initialState_def
          getOnlineUsers_def Let_def)
  have c: "on_login (\<lambda>p. p)
         (fst (on_login (\<lambda>p. p)
                (initialState\<lparr>registeredUsers :=
                   [(''alice'', \<lparr>passwordHash = ''pw'', acc_avatar = ''A''\<rparr>)]\<rparr>)
                ''s1'' ''alice'' ''pw'' 0 0 0))
         ''s2'' ''alice'' ''pw'' 0 0 0
     = (initialState\<lparr>registeredUsers :=
           [(''alice'', \<lparr>passwordHash = ''pw'', acc_avatar = ''A''\<rparr>)],
         connectedUsers :=
           [(''s1'', \<lparr>u_username = ''alice'', u_avatar = Some ''A'', u_socketId = ''s1'',
                      u_joinTime = 0\<rparr>),
            (''s2'', \<lparr>u_username = ''alice'', u_avatar = Some ''A'', u_socketId = ''s2'',
                      u_joinTime = 0\<rparr>)]\<rparr>,
        [(ToSocket ''s2'', LoginError ''User already logged in''),
         (ToSocket ''s2'', LoginSuccess ''alice'' ''A''),
         (ToAll, UserJoined ''alice'' (Some ''A'')), (ToAll, UserCount 2),
         (ToAll, OnlineUsers [(''alice'', ''A''), (''alice'', ''A'')]),
         (ToSocket ''s2'', RecentMessages [])])"
    by (simp add: on_login_def initialState_def findUser_def broadcastUserCount_def
          pruneExpiredMessages_def Let_def)
  from a b c show ?thesis by simp
qed


section \<open>Private chats\<close>

lemma checkRateLimit_verdict:
  "checkRateLimit nowLimit sid limits = (fst (checkRateLimit nowLimit sid limits),
                                          snd (checkRateLimit nowLimit sid limits))"
  by simp

lemma private_message_rejected_p2:
  assumes "\<not> (fst (checkRateLimit nowLimit sid (messageLimits st))
             \<and> chatId \<noteq> [] \<and> messageText \<noteq> [] \<and> toUsername \<noteq> []
             \<and> trim messageText \<noteq> []
             \<and> (\<exists>userData c. map_of (connectedUsers st) sid = Some userData
                   \<and> map_of (privateChats st) chatId = Some c
                   \<and> u_username userData \<in> c_participants c
                   \<and> toUsername \<in> c_participants c))"
  shows "\<exists>text. on_private_message_p2 sockets st sid dataId chatId messageText toUsername
                  nowLimit newId genId nowStamp
                = (st\<lparr>messageLimits := snd (checkRateLimit nowLimit sid (messageLimits st))\<rparr>,
                   [(ToSocket sid, ErrorEvent text)])"
proof (cases "checkRateLimit nowLimit sid (messageLimits st)")
  case (Pair ok limits)
  show ?thesis
  proof (cases ok)
    case False
    with Pair show ?thesis by (simp add: on_private_message_p2_def)
  next
    case True
    with Pair assms show ?thesis
      by (auto simp: on_private_message_p2_def Let_def sanitizeMessage_empty
               split: option.splits)
  qed
qed

lemma private_message_rejected_p1:
  assumes "\<not> (fst (checkRateLimit nowLimit sid (messageLimits st))
             \<and> chatId \<noteq> [] \<and> messageText \<noteq> [] \<and> toUsername \<noteq> []
             \<and> trim messageText \<noteq> []
             \<and> (\<exists>userData c. map_of (connectedUsers st) sid = Some userData
                   \<and> map_of (privateChats st) chatId = Some c
                   \<and> u_username userData \<in> c_participants c
                   \<and> toUsername \<in> c_participants c))"
  shows "on_private_message_p1 st sid chatId messageText toUsername nowLimit
           = on_private_message_p2 sockets st sid dataId chatId messageText toUsername
               nowLimit newId genId nowStamp"
proof (cases "checkRateLimit nowLimit sid (messageLimits st)")
  case (Pair ok limits)
  show ?thesis
  proof (cases ok)
    case False
    with Pair show ?thesis by (simp add: on_private_message_p1_def on_private_message_p2_def)
  next
    case True
    with Pair assms show ?thesis
      by (auto simp: on_private_message_p1_def on_private_message_p2_def Let_def
               sanitizeMessage_empty split: option.splits)
  qed
qed

text \<open>
  In \<^verbatim>\<open>part_001\<close> the path on which every check passes ends in the error of the
  \<^verbatim>\<open>catch\<close> block: nothing is stored, nothing is delivered.
\<close>

lemma private_message_p1_never_delivers:
  "\<exists>text. on_private_message_p1 st sid chatId messageText toUsername nowLimit
            = (st\<lparr>messageLimits := snd (checkRateLimit nowLimit sid (messageLimits st))\<rparr>,
               [(ToSocket sid, ErrorEvent text)])"
proof (cases "checkRateLimit nowLimit sid (messageLimits st)")
  case (Pair ok limits)
  then show ?thesis
    by (cases ok)
       (auto simp: on_private_message_p1_def Let_def split: option.splits)
qed

lemma private_message_accepted_p2:
  assumes "fst (checkRateLimit nowLimit sid (messageLimits st))"
      and "chatId \<noteq> []" and "messageText \<noteq> []" and "toUsername \<noteq> []"
      and "trim messageText \<noteq> []"
      and "map_of (connectedUsers st) sid = Some userData"
      and "map_of (privateChats st) chatId = Some c"
      and "u_username userData \<in> c_participants c" and "toUsername \<in> c_participants c"
      and "sent = \<lparr>pm_id = (if dataId = [] then (if newId = [] then genId else newId) else dataId),
                    pm_username = u_username userData,
                    pm_message = take 500 (trim messageText),
                    pm_timestamp = nowStamp, pm_chatId = None\<rparr>"
  shows "on_private_message_p2 sockets st sid dataId chatId messageText toUsername nowLimit
           newId genId nowStamp
         = (st\<lparr>messageLimits := snd (checkRateLimit nowLimit sid (messageLimits st)),
               privateChats :=
                 AList.update chatId
                   (c\<lparr>c_messages :=
                        (if length (c_messages c @ [sent]) > 100 then tl (c_messages c @ [sent])
                         else c_messages c @ [sent])\<rparr>) (privateChats st)\<rparr>,
            (case findUser (connectedUsers st) toUsername of
               None \<Rightarrow> []
             | Some targetUser \<Rightarrow>
                 if u_socketId targetUser \<in> sockets then
                   [(ToSocket (u_socketId targetUser),
                     PrivateMessageFrom sent chatId (u_username userData))]
                 else [])
            @ [(ToSocket sid, PrivateMessageFrom sent chatId (u_username userData))])"
proof -
  obtain limits where rl: "checkRateLimit nowLimit sid (messageLimits st) = (True, limits)"
    using assms(1) by (cases "checkRateLimit nowLimit sid (messageLimits st)") auto
  show ?thesis
    unfolding assms(10) using rl assms(2-9)
    by (auto simp: on_private_message_p2_def Let_def sanitizeMessage_empty sanitizeMessage_eq
          addPrivateMessageToHistory_p2_def MAX_PRIVATE_MESSAGES_def split: option.splits)
qed

text \<open>
  Claim C6, as amended. \<open>checks\<close> says that the rate limiter allows the call and that
  chat id, body, addressee and trimmed body are not empty; \<open>member\<close> says that the sender
  is joined and that the chat with the given id exists and has the sender and the
  addressee as participants. When one of the two fails, the handler of \<^verbatim>\<open>part_002\<close>
  emits exactly one error to the sender's socket and changes nothing in the state but the
  rate-limit windows, where the call has been counted before any check; the handler of
  \<^verbatim>\<open>part_001\<close> does the same. When both hold, the handler of \<^verbatim>\<open>part_002\<close> appends
  the message (sender's name, body trimmed and cut at 500) to the log of that chat, which
  keeps at most 100 messages, sends it to the addressee's socket if there is one, then to
  the sender's, and changes nothing else but the rate-limit windows.
\<close>

theorem private_message_validation:
  assumes "checks = (fst (checkRateLimit nowLimit sid (messageLimits st))
                      \<and> chatId \<noteq> [] \<and> messageText \<noteq> [] \<and> toUsername \<noteq> []
                      \<and> trim messageText \<noteq> [])"
      and "member = (\<exists>userData c. map_of (connectedUsers st) sid = Some userData
                      \<and> map_of (privateChats st) chatId = Some c
                      \<and> u_username userData \<in> c_participants c
                      \<and> toUsername \<in> c_participants c)"
  shows "(\<not> (checks \<and> member) \<longrightarrow>
            (\<exists>text. on_private_message_p2 sockets st sid dataId chatId messageText toUsername
                      nowLimit newId genId nowStamp
                    = (st\<lparr>messageLimits :=
                            snd (checkRateLimit nowLimit sid (messageLimits st))\<rparr>,
                       [(ToSocket sid, ErrorEvent text)]))
            \<and> on_private_message_p1 st sid chatId messageText toUsername nowLimit
                = on_private_message_p2 sockets st sid dataId chatId messageText toUsername
                    nowLimit newId genId nowStamp)
       \<and> (checks \<longrightarrow>
            (\<forall>userData c sent.
               map_of (connectedUsers st) sid = Some userData
               \<and> map_of (privateChats st) chatId = Some c
               \<and> u_username userData \<in> c_participants c \<and> toUsername \<in> c_participants c
               \<and> sent = \<lparr>pm_id = (if dataId = [] then (if newId = [] then genId else newId)
                                    else dataId),
                           pm_username = u_username userData,
                           pm_message = take 500 (trim messageText),
                           pm_timestamp = nowStamp, pm_chatId = None\<rparr> \<longrightarrow>
               on_private_message_p2 sockets st sid dataId chatId messageText toUsername
                   nowLimit newId genId nowStamp
                 = (st\<lparr>messageLimits := snd (checkRateLimit nowLimit sid (messageLimits st)),
                       privateChats :=
                         AList.update chatId
                           (c\<lparr>c_messages :=
                                (if length (c_messages c @ [sent]) > 100
                                 then tl (c_messages c @ [sent])
                                 else c_messages c @ [sent])\<rparr>) (privateChats st)\<rparr>,
                    (case findUser (connectedUsers st) toUsername of
                       None \<Rightarrow> []
                     | Some targetUser \<Rightarrow>
                         if u_socketId targetUser \<in> sockets then
                           [(ToSocket (u_socketId targetUser),
                             PrivateMessageFrom sent chatId (u_username userData))]
                         else [])
                    @ [(ToSocket sid, PrivateMessageFrom sent chatId (u_username userData))])))"
proof (intro conjI impI allI)
  assume n: "\<not> (checks \<and> member)"
  then have n': "\<not> (fst (checkRateLimit nowLimit sid (messageLimits st))
             \<and> chatId \<noteq> [] \<and> messageText \<noteq> [] \<and> toUsername \<noteq> []
             \<and> trim messageText \<noteq> []
             \<and> (\<exists>userData c. map_of (connectedUsers st) sid = Some userData
                   \<and> map_of (privateChats st) chatId = Some c
                   \<and> u_username userData \<in> c_participants c
                   \<and> toUsername \<in> c_participants c))"
    unfolding assms by blast
  show "\<exists>text. on_private_message_p2 sockets st sid dataId chatId messageText toUsername
                      nowLimit newId genId nowStamp
                    = (st\<lparr>messageLimits :=
                            snd (checkRateLimit nowLimit sid (messageLimits st))\<rparr>,
                       [(ToSocket sid, ErrorEvent text)])"
    using n' by (rule private_message_rejected_p2)
  show "on_private_message_p1 st sid chatId messageText toUsername nowLimit
                = on_private_message_p2 sockets st sid dataId chatId messageText toUsername
                    nowLimit newId genId nowStamp"
    using n' by (rule private_message_rejected_p1)
next
  fix userData c sent
  assume "checks"
    and "map_of (connectedUsers st) sid = Some userData
               \<and> map_of (privateChats st) chatId = Some c
               \<and> u_username userData \<in> c_participants c \<and> toUsername \<in> c_participants c
               \<and> sent = \<lparr>pm_id = (if dataId = [] then (if newId = [] then genId else newId)
                                    else dataId),
                           pm_username = u_username userData,
                           pm_message = take 500 (trim messageText),
                           pm_timestamp = nowStamp, pm_chatId = None\<rparr>"
  then show "on_private_message_p2 sockets st sid dataId chatId messageText toUsername
                   nowLimit newId genId nowStamp
                 = (st\<lparr>messageLimits := snd (checkRateLimit nowLimit sid (messageLimits st)),
                       privateChats :=
                         AList.update chatId
                           (c\<lparr>c_messages :=
                                (if length (c_messages c @ [sent]) > 100
                                 then tl (c_messages c @ [sent])
                                 else c_messages c @ [sent])\<rparr>) (privateChats st)\<rparr>,
                    (case findUser (connectedUsers st) toUsername of
                       None \<Rightarrow> []
                     | Some targetUser \<Rightarrow>
                         if u_socketId targetUser \<in> sockets then
                           [(ToSocket (u_socketId targetUser),
                             PrivateMessageFrom sent chatId (u_username userData))]
                         else [])
                    @ [(ToSocket sid, PrivateMessageFrom sent chatId (u_username userData))])"
    unfolding assms(1) by (elim conjE) (rule private_message_accepted_p2)
qed

theorem private_message_validation_counterexample:
  "on_private_message_p1 aliceAndBob ''s1'' ''private_alice_bob'' ''hi'' ''bob'' 1000
   = (aliceAndBob\<lparr>messageLimits := [(''s1'', \<lparr>l_count = 1, l_resetTime = 61000\<rparr>)]\<rparr>,
      [(ToSocket ''s1'', ErrorEvent ''Invalid chat room'')])
   \<and> aliceAndBob\<lparr>messageLimits := [(''s1'', \<lparr>l_count = 1, l_resetTime = 61000\<rparr>)]\<rparr>
       \<noteq> aliceAndBob
   \<and> on_private_message {''s1'', ''s2''} aliceAndBob ''s1'' ''pc_alice_bob'' ''hi'' ''bob''
       ''id1'' 1000
     = (aliceAndBob,
        [(ToSocket ''s2'', PrivateMessage \<lparr>pm_id = ''id1'', pm_username = ''alice'',
            pm_message = ''hi'', pm_timestamp = 1000, pm_chatId = Some ''pc_alice_bob''\<rparr>),
         (ToSocket ''s1'', PrivateMessage \<lparr>pm_id = ''id1'', pm_username = ''alice'',
            pm_message = ''hi'', pm_timestamp = 1000, pm_chatId = Some ''pc_alice_bob''\<rparr>)])"
proof -
  have srv: "on_private_message {''s1'', ''s2''} aliceAndBob ''s1'' ''pc_alice_bob'' ''hi'' ''bob''
       ''id1'' 1000
     = (aliceAndBob,
        [(ToSocket ''s2'', PrivateMessage \<lparr>pm_id = ''id1'', pm_username = ''alice'',
            pm_message = ''hi'', pm_timestamp = 1000, pm_chatId = Some ''pc_alice_bob''\<rparr>),
         (ToSocket ''s1'', PrivateMessage \<lparr>pm_id = ''id1'', pm_username = ''alice'',
            pm_message = ''hi'', pm_timestamp = 1000, pm_chatId = Some ''pc_alice_bob''\<rparr>)])"
    by (simp add: on_private_message_def Let_def sanitizeMessage_def trim_def isJsSpace_def
          aliceAndBob_def initialState_def addPrivateMessageToHistory_def findUser_def)
  have rl: "checkRateLimit 1000 ''s1'' (messageLimits aliceAndBob)
              = (True, [(''s1'', \<lparr>l_count = 1, l_resetTime = 61000\<rparr>)])"
    by (simp add: checkRateLimit_def aliceAndBob_def initialState_def RATE_LIMIT_WINDOW_def)
  have t: "trim ''hi'' = ''hi''" by (simp add: trim_def isJsSpace_def)
  have a: "on_private_message_p1 aliceAndBob ''s1'' ''private_alice_bob'' ''hi'' ''bob'' 1000
   = (aliceAndBob\<lparr>messageLimits := [(''s1'', \<lparr>l_count = 1, l_resetTime = 61000\<rparr>)]\<rparr>,
      [(ToSocket ''s1'', ErrorEvent ''Invalid chat room'')])"
    using rl
    by (simp add: on_private_message_p1_def Let_def sanitizeMessage_def t aliceAndBob_def
          initialState_def)
  have "messageLimits (aliceAndBob\<lparr>messageLimits := [(''s1'', \<lparr>l_count = 1, l_resetTime = 61000\<rparr>)]\<rparr>)
        \<noteq> messageLimits aliceAndBob"
    by (simp add: aliceAndBob_def initialState_def)
  then have "aliceAndBob\<lparr>messageLimits := [(''s1'', \<lparr>l_count = 1, l_resetTime = 61000\<rparr>)]\<rparr>
       \<noteq> aliceAndBob" by metis
  with a srv show ?thesis by simp
qed

theorem private_message_validation_witness:
  "on_private_message_p2 {''s1'', ''s2''}
     (aliceAndBob\<lparr>privateChats :=
        [(''private_alice_bob'', \<lparr>c_participants = {''alice'', ''bob''}, c_messages = []\<rparr>)]\<rparr>)
     ''s1'' [] ''private_alice_bob'' ''hi'' ''bob'' 1000 ''id1'' ''id2'' 1000
   = (aliceAndBob\<lparr>privateChats :=
        [(''private_alice_bob'',
          \<lparr>c_participants = {''alice'', ''bob''},
           c_messages = [\<lparr>pm_id = ''id1'', pm_username = ''alice'', pm_message = ''hi'',
                          pm_timestamp = 1000, pm_chatId = None\<rparr>]\<rparr>)],
        messageLimits := [(''s1'', \<lparr>l_count = 1, l_resetTime = 61000\<rparr>)]\<rparr>,
      [(ToSocket ''s2'',
        PrivateMessageFrom \<lparr>pm_id = ''id1'', pm_username = ''alice'', pm_message = ''hi'',
                             pm_timestamp = 1000, pm_chatId = None\<rparr>
          ''private_alice_bob'' ''alice''),
       (ToSocket ''s1'',
        PrivateMessageFrom \<lparr>pm_id = ''id1'', pm_username = ''alice'', pm_message = ''hi'',
                             pm_timestamp = 1000, pm_chatId = None\<rparr>
          ''private_alice_bob'' ''alice'')])
   \<and> (\<exists>text. on_private_message_p2 {''s1'', ''s2''}
          (aliceAndBob\<lparr>privateChats :=
             [(''private_alice_bob'',
               \<lparr>c_participants = {''alice'', ''bob''}, c_messages = []\<rparr>)],
             messageLimits := [(''s1'', \<lparr>l_count = 10, l_resetTime = 61000\<rparr>)]\<rparr>)
          ''s1'' [] ''private_alice_bob'' ''hi'' ''bob'' 2000 ''id1'' ''id2'' 2000
        = (aliceAndBob\<lparr>privateChats :=
             [(''private_alice_bob'',
               \<lparr>c_participants = {''alice'', ''bob''}, c_messages = []\<rparr>)],
             messageLimits := [(''s1'', \<lparr>l_count = 10, l_resetTime = 61000\<rparr>)]\<rparr>,
           [(ToSocket ''s1'', ErrorEvent text)]))"
proof -
  let ?c = "\<lparr>c_participants = {''alice'', ''bob''}, c_messages = []\<rparr>"
  let ?st = "aliceAndBob\<lparr>privateChats := [(''private_alice_bob'', ?c)]\<rparr>"
  let ?full = "?st\<lparr>messageLimits := [(''s1'', \<lparr>l_count = 10, l_resetTime = 61000\<rparr>)]\<rparr>"
  let ?alice = "\<lparr>u_username = ''alice'', u_avatar = None, u_socketId = ''s1'', u_joinTime = 0\<rparr>"
  let ?bob = "\<lparr>u_username = ''bob'', u_avatar = None, u_socketId = ''s2'', u_joinTime = 0\<rparr>"
  let ?sent = "\<lparr>pm_id = ''id1'', pm_username = ''alice'', pm_message = ''hi'',
                 pm_timestamp = 1000, pm_chatId = None\<rparr>"
  have t: "trim ''hi'' = ''hi''" by (simp add: trim_def isJsSpace_def)
  have rl: "checkRateLimit 1000 ''s1'' (messageLimits ?st)
              = (True, [(''s1'', \<lparr>l_count = 1, l_resetTime = 61000\<rparr>)])"
    by (simp add: checkRateLimit_def aliceAndBob_def initialState_def RATE_LIMIT_WINDOW_def)
  have u: "map_of (connectedUsers ?st) ''s1'' = Some ?alice"
    by (simp add: aliceAndBob_def initialState_def)
  have f: "findUser (connectedUsers ?st) ''bob'' = Some ?bob"
    by (simp add: aliceAndBob_def initialState_def findUser_def)
  note T = private_message_validation [OF refl refl,
      where sockets = "{''s1'', ''s2''}" and st = ?st and sid = "''s1''" and dataId = "[]"
        and chatId = "''private_alice_bob''" and messageText = "''hi''" and toUsername = "''bob''"
        and nowLimit = 1000 and newId = "''id1''" and genId = "''id2''" and nowStamp = 1000]
  have "on_private_message_p2 {''s1'', ''s2''} ?st ''s1'' [] ''private_alice_bob'' ''hi'' ''bob''
          1000 ''id1'' ''id2'' 1000
        = (?st\<lparr>messageLimits := snd (checkRateLimit 1000 ''s1'' (messageLimits ?st)),
              privateChats :=
                AList.update ''private_alice_bob''
                  (?c\<lparr>c_messages :=
                       (if length (c_messages ?c @ [?sent]) > 100 then tl (c_messages ?c @ [?sent])
                        else c_messages ?c @ [?sent])\<rparr>) (privateChats ?st)\<rparr>,
           (case findUser (connectedUsers ?st) ''bob'' of
              None \<Rightarrow> []
            | Some targetUser \<Rightarrow>
                if u_socketId targetUser \<in> {''s1'', ''s2''} then
                  [(ToSocket (u_socketId targetUser),
                    PrivateMessageFrom ?sent ''private_alice_bob'' (u_username ?alice))]
                else [])
           @ [(ToSocket ''s1'', PrivateMessageFrom ?sent ''private_alice_bob'' (u_username ?alice))])"
    using T [THEN conjunct2] rl u t
    by (elim impE allE [of _ ?alice] allE [of _ ?c] allE [of _ ?sent]) simp_all
  then have first: "on_private_message_p2 {''s1'', ''s2''} ?st ''s1'' [] ''private_alice_bob'' ''hi''
      ''bob'' 1000 ''id1'' ''id2'' 1000
    = (?st\<lparr>privateChats := [(''private_alice_bob'', ?c\<lparr>c_messages := [?sent]\<rparr>)],
          messageLimits := [(''s1'', \<lparr>l_count = 1, l_resetTime = 61000\<rparr>)]\<rparr>,
       [(ToSocket ''s2'', PrivateMessageFrom ?sent ''private_alice_bob'' ''alice''),
        (ToSocket ''s1'', PrivateMessageFrom ?sent ''private_alice_bob'' ''alice'')])"
    using rl f by (simp add: aliceAndBob_def initialState_def)
  have rl2: "checkRateLimit 2000 ''s1'' (messageLimits ?full)
              = (False, [(''s1'', \<lparr>l_count = 10, l_resetTime = 61000\<rparr>)])"
    by (simp add: checkRateLimit_def MESSAGE_RATE_LIMIT_def)
  note R = private_message_validation [OF refl refl,
      where sockets = "{''s1'', ''s2''}" and st = ?full and sid = "''s1''" and dataId = "[]"
        and chatId = "''private_alice_bob''" and messageText = "''hi''" and toUsername = "''bob''"
        and nowLimit = 2000 and newId = "''id1''" and genId = "''id2''" and nowStamp = 2000]
  from R [THEN conjunct1] rl2
  have "\<exists>text. on_private_message_p2 {''s1'', ''s2''} ?full ''s1'' [] ''private_alice_bob''
                 ''hi'' ''bob'' 2000 ''id1'' ''id2'' 2000
               = (?full\<lparr>messageLimits := snd (checkRateLimit 2000 ''s1'' (messageLimits ?full))\<rparr>,
                  [(ToSocket ''s1'', ErrorEvent text)])"
    by simp
  then have second: "\<exists>text. on_private_message_p2 {''s1'', ''s2''} ?full ''s1'' []
                 ''private_alice_bob'' ''hi'' ''bob'' 2000 ''id1'' ''id2'' 2000
               = (?full, [(ToSocket ''s1'', ErrorEvent text)])"
    using rl2 by simp
  from first second show ?thesis by simp
qed

text \<open>
  In \<^verbatim>\<open>part_001\<close> an accept that passes the three guards changes nothing and emits
  nothing: the call of the helper throws and the \<^verbatim>\<open>catch\<close> block only logs.
\<close>

lemma accept_private_chat_p1_no_effect:
  assumes "map_of (connectedUsers st) sid = Some userData" and "fromUsername \<noteq> []"
      and "findUser (connectedUsers st) fromUsername = Some senderUser"
  shows "on_accept_private_chat_p1 st sid fromUsername = (st, [])"
  using assms by (simp add: on_accept_private_chat_p1_def)








end
